theory Spec2Isabelle
  imports Complex_Main "HOL-Library.Multiset" "HOL-Library.Sublist" "HOL-Library.Word"
begin

section \<open>Data model of \<^verbatim>\<open>src/lib/token.ts\<close>\<close>

type_synonym UserAddress = string

datatype Chain = Ethereum | Arbitrum | Optimism | Avalanche

record TokenContractAddress =
  address :: string
  chain :: Chain

record AccountCurrentBalance =
  eth :: string
  arb :: string
  op :: string
  avax :: string

text \<open>
  A JavaScript number is an IEEE binary64 value.  Every finite binary64 value is a
  rational, so a finite number is represented by the rational it denotes.  Negative
  zero and negative infinity cannot arise from the unsigned amounts handled here.
\<close>

datatype number = Finite rat | Infinity | NaN

text \<open>
  TypeScript types are erased at run time: the \<^verbatim>\<open>balance\<close> field of a record holds
  whatever value the code stored there.  The declared type is \<^verbatim>\<open>number\<close> (lines 59-63).
\<close>

datatype js_value = JNumber number | JString string

record AccountCurrentTokenBalance =
  tokenAddress :: string
  chain :: Chain
  balance :: js_value

section \<open>External collaborators\<close>

text \<open>
  Modelled from the spec: the response type of the provider's batched token lookup
  (\<^verbatim>\<open>TokenBalancesResponse\<close> of the provider SDK, not part of the repository).  The spec
  gives it as a sequence of \<^verbatim>\<open>{contractAddress, tokenBalance: integer-or-null}\<close>; amounts
  are unsigned smallest-unit quantities.
\<close>

record TokenBalance =
  contractAddress :: string
  tokenBalance :: "nat option"

record TokenBalancesResponse =
  tokenBalances :: "TokenBalance list"

text \<open>The value a rejected provider promise carries; opaque to the program.\<close>

type_synonym cause = string

text \<open>The requests a call issues to the providers, in the order they are issued.\<close>

datatype request =
    NativeBalance Chain UserAddress
  | TokenBalances Chain UserAddress "string list"
  | BalanceOf string UserAddress
  | Decimals string

text \<open>Contracts are bound to \<^verbatim>\<open>providerAvalanche\<close> (line 91).\<close>

fun request_chain :: "request \<Rightarrow> Chain" where
  "request_chain (NativeBalance c u) = c"
| "request_chain (TokenBalances c u as) = c"
| "request_chain (BalanceOf a u) = Avalanche"
| "request_chain (Decimals a) = Avalanche"

text \<open>
  The four clients (\<^verbatim>\<open>alchemyEthereum\<close>, \<^verbatim>\<open>alchemyArbitrum\<close>, \<^verbatim>\<open>alchemyOptimism\<close>, and
  \<^verbatim>\<open>providerAvalanche\<close>, which \<^verbatim>\<open>./contract\<close> declares) are parameters of the model: what
  they answer is not decided by the program.  Each call either rejects (\<open>Inl\<close>) or
  fulfils (\<open>Inr\<close>); a call with the same arguments gets the same answer.  The ERC-20
  ABI of lines 85-88 fixes the result types of \<^verbatim>\<open>balanceOf\<close> (uint256) and \<^verbatim>\<open>decimals\<close>
  (uint8); native balances and batched token balances are unbounded integers.
  \<open>settle_time\<close> is the instant at which the promise of a request settles; it matters
  only where promises are joined by \<^verbatim>\<open>Promise.all\<close>.
\<close>

record providers =
  core_getBalance :: "Chain \<Rightarrow> UserAddress \<Rightarrow> cause + nat"
  core_getTokenBalances :: "Chain \<Rightarrow> UserAddress \<Rightarrow> string list \<Rightarrow> cause + TokenBalancesResponse"
  contract_balanceOf :: "string \<Rightarrow> UserAddress \<Rightarrow> cause + 256 word"
  contract_decimals :: "string \<Rightarrow> cause + 8 word"
  settle_time :: "request \<Rightarrow> nat"

text \<open>What a caller can catch: a provider's rejection passed through, or \<^verbatim>\<open>new Error(msg)\<close>.\<close>

datatype exn = Rejected cause | Error string

record effects =
  requests :: "request list"
  console :: "cause list"

section \<open>Library functions used by the source\<close>

text \<open>
  \<^verbatim>\<open>formatEther\<close> and \<^verbatim>\<open>formatUnits\<close> belong to the ethers library, \<^verbatim>\<open>parseFloat\<close> and
  \<^verbatim>\<open>toFixed\<close> to the language.  None of them is part of the repository; they are
  modelled from the library's source text and from the language standard.
\<close>

subsection \<open>Decimal strings\<close>

definition digit_char :: "nat \<Rightarrow> char" where
  "digit_char d = ''0123456789'' ! d"

text \<open>\<^verbatim>\<open>toString()\<close> of a non-negative integer, base 10.\<close>

fun decimal :: "nat \<Rightarrow> string" where
  "decimal n = (if n < 10 then [digit_char n] else decimal (n div 10) @ [digit_char (n mod 10)])"

definition is_digit :: "char \<Rightarrow> bool" where
  "is_digit c = (c \<in> set ''0123456789'')"

text \<open>The value of a digit character: its position in the digit string.\<close>

definition digit_val :: "char \<Rightarrow> nat" where
  "digit_val c = length (takeWhile (\<lambda>d. d \<noteq> c) ''0123456789'')"

definition digits_val :: "string \<Rightarrow> nat" where
  "digits_val s = foldl (\<lambda>acc c. 10 * acc + digit_val c) 0 s"

subsection \<open>\<^verbatim>\<open>utils.formatUnits\<close> and \<^verbatim>\<open>utils.formatEther\<close> (ethers v5)\<close>

text \<open>
  \<^verbatim>\<open>formatUnits(value, decimals)\<close> of the ethers library, for an unsigned value:
  \<^verbatim>\<open>
    fraction = value.mod(multiplier).toString();
    while (fraction.length < multiplier.length - 1) { fraction = "0" + fraction; }
    fraction = fraction.match(/^([0-9]*[1-9]|0)(0*)/)[1];
    whole = value.div(multiplier).toString();
    value = (multiplier.length === 1) ? whole : whole + "." + fraction;
  \<close>
  with \<^verbatim>\<open>multiplier\<close> the string of \<open>10 ^ decimals\<close>.  The library rejects
  \<^verbatim>\<open>decimals > 256\<close>; the source passes the constant 18 or a uint8.
\<close>

definition strip_trailing_zeros :: "string \<Rightarrow> string" where
  "strip_trailing_zeros s =
     (let t = rev (dropWhile (\<lambda>c. c = CHR ''0'') (rev s)) in if t = [] then ''0'' else t)"

definition formatUnits :: "nat \<Rightarrow> nat \<Rightarrow> string" where
  "formatUnits v d =
     (let multiplier = 10 ^ d;
          fraction = decimal (v mod multiplier);
          padded = replicate (d - length fraction) CHR ''0'' @ fraction;
          whole = decimal (v div multiplier)
      in if d = 0 then whole else whole @ ''.'' @ strip_trailing_zeros padded)"

definition formatEther :: "nat \<Rightarrow> string" where
  "formatEther wei = formatUnits wei 18"

subsection \<open>Rounding to binary64\<close>

definition pow2 :: "int \<Rightarrow> rat" where
  "pow2 e = (if 0 \<le> e then 2 ^ nat e else 1 / 2 ^ nat (- e))"

fun bit_length :: "nat \<Rightarrow> nat" where
  "bit_length n = (if n = 0 then 0 else Suc (bit_length (n div 2)))"

text \<open>For \<open>q > 0\<close>: the exponent \<open>L\<close> with \<open>2^L \<le> q < 2^(L+1)\<close>.\<close>

definition floor_log2 :: "rat \<Rightarrow> int" where
  "floor_log2 q =
     (if 1 \<le> q then int (bit_length (nat \<lfloor>q\<rfloor>)) - 1
      else (let j = int (bit_length (nat \<lfloor>1 / q\<rfloor>)) - 1
            in if q = pow2 (- j) then - j else - j - 1))"

definition round_half_even :: "rat \<Rightarrow> int" where
  "round_half_even r =
     (let f = \<lfloor>r\<rfloor>; d = r - of_int f
      in if d < 1 / 2 then f else if 1 / 2 < d then f + 1 else if even f then f else f + 1)"

text \<open>
  Round-to-nearest, ties-to-even, onto binary64 (53-bit significand, least exponent
  \<open>-1074\<close>, overflow to infinity at \<open>2^1024\<close>), for a non-negative rational.
\<close>

definition round_to_double :: "rat \<Rightarrow> number" where
  "round_to_double q =
     (if q = 0 then Finite 0
      else (let e = max (floor_log2 q - 52) (- 1074);
                m = round_half_even (q / pow2 e);
                v = of_int m * pow2 e
            in if pow2 1024 \<le> v then Infinity else Finite v))"

subsection \<open>\<^verbatim>\<open>parseFloat\<close>\<close>

text \<open>
  \<^verbatim>\<open>parseFloat\<close> reads the longest prefix that is a decimal literal and rounds its value
  to binary64; with no such prefix the result is \<^verbatim>\<open>NaN\<close>.  The prefixes modelled are
  digits with an optional fraction; signs, exponents and leading blanks do not occur in
  the output of \<open>formatUnits\<close>.
\<close>

definition parseFloat :: "string \<Rightarrow> number" where
  "parseFloat s =
     (let ip = takeWhile is_digit s;
          rest = dropWhile is_digit s;
          fp = (case rest of [] \<Rightarrow> [] | c # r \<Rightarrow> if c = CHR ''.'' then takeWhile is_digit r else [])
      in if ip = [] \<and> fp = [] then NaN
         else round_to_double (of_nat (digits_val (ip @ fp)) / 10 ^ length fp))"

subsection \<open>\<^verbatim>\<open>Number.prototype.toFixed\<close>\<close>

text \<open>
  Digits of \<^verbatim>\<open>Number::toString\<close> for a finite \<open>x \<ge> 10^21\<close>: the least \<open>k\<close> and the
  \<open>n\<close>, \<open>s\<close> with \<open>10^(k-1) \<le> s < 10^k\<close> such that \<open>s * 10^(n-k)\<close> rounds to \<open>x\<close>, taking
  the \<open>s\<close> closest to \<open>x\<close>.  Seventeen digits identify every binary64 value, so the
  search succeeds on every such value; the result for \<open>None\<close> only keeps the function
  total.
\<close>

definition digit_candidates :: "rat \<Rightarrow> nat \<Rightarrow> (nat \<times> nat) list" where
  "digit_candidates x k =
     (let N = length (decimal (nat \<lfloor>x\<rfloor>))
      in concat (map (\<lambda>n. map (\<lambda>s. (n, s))
           (filter (\<lambda>s. 10 ^ (k - 1) \<le> s \<and> s < 10 ^ k
                         \<and> round_to_double (of_nat (s * 10 ^ (n - k))) = Finite x)
              [nat \<lfloor>x / 10 ^ (n - k)\<rfloor>, Suc (nat \<lfloor>x / 10 ^ (n - k)\<rfloor>)]))
           [N, Suc N]))"

fun closest :: "rat \<Rightarrow> nat \<Rightarrow> (nat \<times> nat) \<Rightarrow> (nat \<times> nat) list \<Rightarrow> nat \<times> nat" where
  "closest x k best [] = best"
| "closest x k (n, s) ((n', s') # cs) =
     (if \<bar>of_nat (s' * 10 ^ (n' - k)) - x\<bar> < \<bar>of_nat (s * 10 ^ (n - k)) - x\<bar>
      then closest x k (n', s') cs else closest x k (n, s) cs)"

fun shortest_digits :: "rat \<Rightarrow> nat \<Rightarrow> nat \<Rightarrow> (nat \<times> nat \<times> nat) option" where
  "shortest_digits x k 0 = None"
| "shortest_digits x k (Suc fuel) =
     (case digit_candidates x k of
        [] \<Rightarrow> shortest_digits x (Suc k) fuel
      | c # cs \<Rightarrow> (case closest x k c cs of (n, s) \<Rightarrow> Some (n, k, s)))"

definition exponent_notation :: "rat \<Rightarrow> string" where
  "exponent_notation x =
     (case shortest_digits x 1 17 of
        None \<Rightarrow> decimal (nat \<lfloor>x\<rfloor>)
      | Some (n, k, s) \<Rightarrow>
          (let ds = decimal s
           in if k = 1 then ds @ ''e+'' @ decimal (n - 1)
              else take 1 ds @ ''.'' @ drop 1 ds @ ''e+'' @ decimal (n - 1)))"

text \<open>
  \<^verbatim>\<open>x.toFixed(f)\<close>: a non-finite \<open>x\<close> and an \<open>x \<ge> 10^21\<close> are printed by
  \<^verbatim>\<open>Number::toString\<close>; otherwise \<open>n\<close> is the integer nearest to \<open>x * 10^f\<close> (the larger
  one on a tie), printed with at least \<open>f + 1\<close> digits and a point before the last \<open>f\<close>.
\<close>

definition toFixed :: "nat \<Rightarrow> number \<Rightarrow> string" where
  "toFixed f x =
     (case x of
        NaN \<Rightarrow> ''NaN''
      | Infinity \<Rightarrow> ''Infinity''
      | Finite r \<Rightarrow>
          (if r < 0 then ''-'' else '''') @
          (let a = \<bar>r\<bar> in
           if 10 ^ 21 \<le> a then exponent_notation a
           else (let n = nat \<lfloor>a * 10 ^ f + 1 / 2\<rfloor>;
                     m = (if n = 0 then ''0'' else decimal n);
                     m' = (if length m \<le> f then replicate (f + 1 - length m) CHR ''0'' @ m else m);
                     k = length m'
                 in if f = 0 then m else take (k - f) m' @ ''.'' @ drop (k - f) m')))"

section \<open>The program\<close>

subsection \<open>\<^verbatim>\<open>getBalance\<close> (lines 40-57)\<close>

definition formatNative :: "nat \<Rightarrow> string" where
  "formatNative b = toFixed 5 (parseFloat (formatEther b))"

definition getBalance ::
  "providers \<Rightarrow> UserAddress \<Rightarrow> (exn + AccountCurrentBalance) \<times> request list" where
  "getBalance P userAddress =
     (case core_getBalance P Ethereum userAddress of
        Inl e \<Rightarrow> (Inl (Rejected e), [NativeBalance Ethereum userAddress])
      | Inr ethBalance \<Rightarrow>
     (case core_getBalance P Arbitrum userAddress of
        Inl e \<Rightarrow> (Inl (Rejected e),
                  [NativeBalance Ethereum userAddress, NativeBalance Arbitrum userAddress])
      | Inr arbBalance \<Rightarrow>
     (case core_getBalance P Optimism userAddress of
        Inl e \<Rightarrow> (Inl (Rejected e),
                  [NativeBalance Ethereum userAddress, NativeBalance Arbitrum userAddress,
                   NativeBalance Optimism userAddress])
      | Inr optBalance \<Rightarrow>
     (case core_getBalance P Avalanche userAddress of
        Inl e \<Rightarrow> (Inl (Rejected e),
                  [NativeBalance Ethereum userAddress, NativeBalance Arbitrum userAddress,
                   NativeBalance Optimism userAddress, NativeBalance Avalanche userAddress])
      | Inr avaxBalance \<Rightarrow>
          (Inr \<lparr>eth = formatNative ethBalance, arb = formatNative arbBalance,
                op = formatNative optBalance, avax = formatNative avaxBalance\<rparr>,
           [NativeBalance Ethereum userAddress, NativeBalance Arbitrum userAddress,
            NativeBalance Optimism userAddress, NativeBalance Avalanche userAddress])))))"

subsection \<open>\<^verbatim>\<open>processTokenBalancesResponse\<close> (lines 65-82)\<close>

definition processTokenBalancesResponse ::
  "TokenBalancesResponse \<Rightarrow> Chain \<Rightarrow> AccountCurrentTokenBalance list" where
  "processTokenBalancesResponse response c =
     map (\<lambda>b. \<lparr>tokenAddress = contractAddress b, chain = c,
                balance = JNumber (parseFloat (formatEther (the (tokenBalance b))))\<rparr>)
         (filter (\<lambda>b. tokenBalance b \<noteq> None) (tokenBalances response))"

subsection \<open>\<^verbatim>\<open>getAvalancheTokenBalances\<close> (lines 84-106)\<close>

text \<open>
  A promise that settles: the instant at which it settles, and whether it rejects
  (\<open>Inl\<close>) or fulfils (\<open>Inr\<close>).
\<close>

type_synonym 'a promise = "nat \<times> (cause + 'a)"

text \<open>
  \<^verbatim>\<open>Promise.all\<close>: rejects as soon as one member rejects, with the cause of the member
  that rejects first in time; fulfils with all the values once every member has
  fulfilled.  Of two members that reject at the same instant the one earlier in the
  array is taken.
\<close>

fun promise_all :: "'a promise list \<Rightarrow> 'a list promise" where
  "promise_all [] = (0, Inr [])"
| "promise_all ((t, Inl e) # ps) =
     (case promise_all ps of
        (t', Inl e') \<Rightarrow> if t' < t then (t', Inl e') else (t, Inl e)
      | (t', Inr vs) \<Rightarrow> (t, Inl e))"
| "promise_all ((t, Inr v) # ps) =
     (case promise_all ps of
        (t', Inl e') \<Rightarrow> (t', Inl e')
      | (t', Inr vs) \<Rightarrow> (max t t', Inr (v # vs)))"

text \<open>The async arrow function of lines 90-101, for one contract.\<close>

definition avalancheTokenBalance ::
  "providers \<Rightarrow> UserAddress \<Rightarrow> string \<Rightarrow> AccountCurrentTokenBalance promise" where
  "avalancheTokenBalance P userAddress tokenContractAddress =
     (case promise_all
             [(settle_time P (BalanceOf tokenContractAddress userAddress),
               map_sum id unat (contract_balanceOf P tokenContractAddress userAddress)),
              (settle_time P (Decimals tokenContractAddress),
               map_sum id unat (contract_decimals P tokenContractAddress))] of
        (t, Inl e) \<Rightarrow> (t, Inl e)
      | (t, Inr vs) \<Rightarrow> (t, Inr \<lparr>tokenAddress = tokenContractAddress, chain = Avalanche,
                                  balance = JString (formatUnits (vs ! 0) (vs ! 1))\<rparr>))"

text \<open>
  \<^verbatim>\<open>map\<close> runs every arrow function up to its first \<^verbatim>\<open>await\<close>, so both requests of every
  contract are issued before any result is awaited.  The caller awaits the joined
  promise; its outcome is the first component of the result.
\<close>

definition getAvalancheTokenBalances ::
  "providers \<Rightarrow> UserAddress \<Rightarrow> string list
     \<Rightarrow> (cause + AccountCurrentTokenBalance list) \<times> request list" where
  "getAvalancheTokenBalances P userAddress tokenContractAddresses =
     (snd (promise_all (map (avalancheTokenBalance P userAddress) tokenContractAddresses)),
      concat (map (\<lambda>a. [BalanceOf a userAddress, Decimals a]) tokenContractAddresses))"

subsection \<open>\<^verbatim>\<open>getTokenBalance\<close> (lines 108-184)\<close>

type_synonym call_state = "(exn + AccountCurrentTokenBalance list) \<times> effects"

text \<open>
  One of the three blocks of lines 131-171, which differ only in the client and the
  chain tag.  A block is skipped once an earlier block has thrown.  The \<^verbatim>\<open>try\<close> also
  covers \<open>processTokenBalancesResponse\<close>, which cannot throw on a response of the
  modelled type.
\<close>

definition alchemyBlock ::
  "providers \<Rightarrow> Chain \<Rightarrow> UserAddress \<Rightarrow> string list \<Rightarrow> call_state \<Rightarrow> call_state" where
  "alchemyBlock P c userAddress tokens st =
     (case fst st of
        Inl e \<Rightarrow> st
      | Inr result \<Rightarrow>
          if length tokens > 0 then
            (let s = (snd st)\<lparr>requests := requests (snd st) @ [TokenBalances c userAddress tokens]\<rparr>
             in case core_getTokenBalances P c userAddress tokens of
                  Inl error \<Rightarrow>
                    (Inl (Error ''Not valid contract_addresses''), s\<lparr>console := console s @ [error]\<rparr>)
                | Inr response \<Rightarrow>
                    (Inr (result @ processTokenBalancesResponse response c), s))
          else st)"

text \<open>The block of lines 173-181.\<close>

definition avalancheBlock ::
  "providers \<Rightarrow> UserAddress \<Rightarrow> string list \<Rightarrow> call_state \<Rightarrow> call_state" where
  "avalancheBlock P userAddress tokens st =
     (case fst st of
        Inl e \<Rightarrow> st
      | Inr result \<Rightarrow>
          if length tokens > 0 then
            (case getAvalancheTokenBalances P userAddress tokens of
               (outcome, issued) \<Rightarrow>
                 (let s = (snd st)\<lparr>requests := requests (snd st) @ issued\<rparr>
                  in case outcome of
                       Inl error \<Rightarrow>
                         (Inl (Error ''Not valid contract_addresses''),
                          s\<lparr>console := console s @ [error]\<rparr>)
                     | Inr data \<Rightarrow> (Inr (result @ data), s)))
          else st)"

text \<open>The filter-and-map of lines 116-127, for one chain.\<close>

definition chainTokens :: "Chain \<Rightarrow> TokenContractAddress list \<Rightarrow> string list" where
  "chainTokens c tokenContractAddresses =
     map address (filter (\<lambda>a. TokenContractAddress.chain a = c) tokenContractAddresses)"

definition getTokenBalance ::
  "providers \<Rightarrow> UserAddress \<Rightarrow> TokenContractAddress list \<Rightarrow> call_state" where
  "getTokenBalance P userAddress tokenContractAddresses =
     (let ethereumTokens = chainTokens Ethereum tokenContractAddresses;
          arbitrumTokens = chainTokens Arbitrum tokenContractAddresses;
          optimismTokens = chainTokens Optimism tokenContractAddresses;
          avalancheTokens = chainTokens Avalanche tokenContractAddresses
      in avalancheBlock P userAddress avalancheTokens
           (alchemyBlock P Optimism userAddress optimismTokens
             (alchemyBlock P Arbitrum userAddress arbitrumTokens
               (alchemyBlock P Ethereum userAddress ethereumTokens
                 (Inr [], \<lparr>requests = [], console = []\<rparr>)))))"

section \<open>Vocabulary for the statements\<close>

definition supported_chains :: "Chain list" where
  "supported_chains = [Ethereum, Arbitrum, Optimism, Avalanche]"

definition generic_failure :: exn where
  "generic_failure = Error ''Not valid contract_addresses''"

text \<open>The chains for which the input holds at least one token, in block order.\<close>

definition chains_with_tokens :: "TokenContractAddress list \<Rightarrow> Chain list" where
  "chains_with_tokens ts = filter (\<lambda>c. chainTokens c ts \<noteq> []) supported_chains"

fun sum_causes :: "cause + 'a \<Rightarrow> cause list" where
  "sum_causes (Inl e) = [e]"
| "sum_causes (Inr v) = []"

text \<open>
  The causes of the rejected provider calls of one chain: none when the input has no
  token for the chain (no call is made), the batched call's cause on the three Alchemy
  chains, every rejected \<^verbatim>\<open>balanceOf\<close> / \<^verbatim>\<open>decimals\<close> request on Avalanche.
\<close>

definition provider_failures ::
  "providers \<Rightarrow> UserAddress \<Rightarrow> TokenContractAddress list \<Rightarrow> Chain \<Rightarrow> cause list" where
  "provider_failures P u ts c =
     (let toks = chainTokens c ts
      in if toks = [] then []
         else if c = Avalanche
           then concat (map (\<lambda>a. sum_causes (contract_balanceOf P a u) @
                                    sum_causes (contract_decimals P a)) toks)
           else sum_causes (core_getTokenBalances P c u toks))"

text \<open>The requests one chain's block issues when it runs.\<close>

definition chain_requests :: "UserAddress \<Rightarrow> TokenContractAddress list \<Rightarrow> Chain \<Rightarrow> request list" where
  "chain_requests u ts c =
     (if c = Avalanche then concat (map (\<lambda>a. [BalanceOf a u, Decimals a]) (chainTokens c ts))
      else [TokenBalances c u (chainTokens c ts)])"

text \<open>The outcome of one chain's fetch, taken on its own.\<close>

definition chain_fetch ::
  "providers \<Rightarrow> UserAddress \<Rightarrow> TokenContractAddress list \<Rightarrow> Chain
     \<Rightarrow> cause + AccountCurrentTokenBalance list" where
  "chain_fetch P u ts c =
     (if c = Avalanche then fst (getAvalancheTokenBalances P u (chainTokens c ts))
      else map_sum id (\<lambda>r. processTokenBalancesResponse r c)
             (core_getTokenBalances P c u (chainTokens c ts)))"

definition chain_block ::
  "providers \<Rightarrow> UserAddress \<Rightarrow> TokenContractAddress list \<Rightarrow> Chain \<Rightarrow> call_state \<Rightarrow> call_state" where
  "chain_block P u ts c st =
     (if c = Avalanche then avalancheBlock P u (chainTokens c ts) st
      else alchemyBlock P c u (chainTokens c ts) st)"

text \<open>The elements of a list up to and including the first one that satisfies \<open>p\<close>.\<close>

fun take_through :: "('a \<Rightarrow> bool) \<Rightarrow> 'a list \<Rightarrow> 'a list" where
  "take_through p [] = []"
| "take_through p (x # xs) = (if p x then [x] else x # take_through p xs)"




text \<open>A decimal string with a non-empty whole part, a point and exactly five digits after it.\<close>

definition five_fraction_digits :: "string \<Rightarrow> bool" where
  "five_fraction_digits s =
     (let whole = takeWhile is_digit s; rest = dropWhile is_digit s
      in whole \<noteq> [] \<and>
         (case rest of [] \<Rightarrow> False
          | c # fraction \<Rightarrow> c = CHR ''.'' \<and> length fraction = 5 \<and> list_all is_digit fraction))"

text \<open>
  The least smallest-unit balance whose amount in whole units rounds to a binary64
  value of \<open>10^21\<close>: the amount \<open>10^21 - 65536\<close> lies half-way between two neighbouring
  binary64 values and the tie goes to \<open>10^21\<close>.
\<close>

definition native_bound :: nat where
  "native_bound = 999999999999999934464 * 10 ^ 18"

section \<open>Concrete collaborators and inputs\<close>

text \<open>
  Every call fulfils.  The batched lookup reports \<^verbatim>\<open>null\<close> for contract \<^verbatim>\<open>0xA\<close> and one
  whole token (18 decimals) for every other contract.
\<close>

definition example_providers :: providers where
  "example_providers =
     \<lparr>core_getBalance = (\<lambda>c u. Inr (case c of Ethereum \<Rightarrow> 1000000000000000000 | Arbitrum \<Rightarrow> 0
                                     | Optimism \<Rightarrow> 1234567890123456789
                                     | Avalanche \<Rightarrow> 2500000000000000000)),
      core_getTokenBalances = (\<lambda>c u as. Inr \<lparr>tokenBalances =
          map (\<lambda>a. \<lparr>contractAddress = a,
                      tokenBalance = (if a = ''0xA'' then None else Some 1000000000000000000)\<rparr>) as\<rparr>),
      contract_balanceOf = (\<lambda>a u. Inr 1000000000000000000),
      contract_decimals = (\<lambda>a. Inr 18),
      settle_time = (\<lambda>r. 0)\<rparr>"

definition example_tokens :: "TokenContractAddress list" where
  "example_tokens =
     [\<lparr>address = ''0xB'', chain = Avalanche\<rparr>, \<lparr>address = ''0xC'', chain = Ethereum\<rparr>,
      \<lparr>address = ''0xA'', chain = Ethereum\<rparr>, \<lparr>address = ''0xD'', chain = Arbitrum\<rparr>]"

definition example_output :: "AccountCurrentTokenBalance list" where
  "example_output =
     [\<lparr>tokenAddress = ''0xC'', chain = Ethereum,
       balance = JNumber (parseFloat (formatEther 1000000000000000000))\<rparr>,
      \<lparr>tokenAddress = ''0xD'', chain = Arbitrum,
       balance = JNumber (parseFloat (formatEther 1000000000000000000))\<rparr>,
      \<lparr>tokenAddress = ''0xB'', chain = Avalanche,
       balance = JString (formatUnits 1000000000000000000 18)\<rparr>]"

definition example_response :: TokenBalancesResponse where
  "example_response =
     \<lparr>tokenBalances = [\<lparr>contractAddress = ''0xC'', tokenBalance = Some 1000000000000000000\<rparr>,
                       \<lparr>contractAddress = ''0xA'', tokenBalance = None\<rparr>,
                       \<lparr>contractAddress = ''0xE'', tokenBalance = Some 0\<rparr>]\<rparr>"

text \<open>The Arbitrum client rejects the batched lookup.\<close>

definition rejecting_arbitrum :: providers where
  "rejecting_arbitrum = example_providers
     \<lparr>core_getTokenBalances := (\<lambda>c u as. if c = Arbitrum then Inl ''rate limited''
                                         else core_getTokenBalances example_providers c u as)\<rparr>"

text \<open>The Ethereum client rejects every call.\<close>

definition rejecting_ethereum :: providers where
  "rejecting_ethereum = example_providers
     \<lparr>core_getBalance := (\<lambda>c u. if c = Ethereum then Inl ''timeout''
                                else core_getBalance example_providers c u),
      core_getTokenBalances := (\<lambda>c u as. if c = Ethereum then Inl ''timeout''
                                         else core_getTokenBalances example_providers c u as)\<rparr>"

text \<open>The contract \<^verbatim>\<open>0xA\<close> reverts on \<^verbatim>\<open>balanceOf\<close>; every other contract answers.\<close>

definition reverting_contract :: providers where
  "reverting_contract = example_providers
     \<lparr>contract_balanceOf := (\<lambda>a u. if a = ''0xA'' then Inl ''execution reverted''
                                   else Inr 1000000000000000000)\<rparr>"

definition avalanche_pair :: "TokenContractAddress list" where
  "avalanche_pair =
     [\<lparr>address = ''0xA'', chain = Avalanche\<rparr>, \<lparr>address = ''0xB'', chain = Avalanche\<rparr>]"

text \<open>The Ethereum adapter reports a native balance of \<open>10^39\<close> smallest units.\<close>

definition huge_balance :: providers where
  "huge_balance = example_providers
     \<lparr>core_getBalance := (\<lambda>c u. Inr (if c = Ethereum then 10 ^ 39 else 0))\<rparr>"

definition avalanche_only :: "TokenContractAddress list" where
  "avalanche_only = [\<lparr>address = ''0xB'', chain = Avalanche\<rparr>]"

text \<open>
  Two contracts revert: \<^verbatim>\<open>0xA\<close>, first in the batch, at instant 5, and \<^verbatim>\<open>0xB\<close> at
  instant 1.
\<close>

definition racing_contracts :: providers where
  "racing_contracts = example_providers
     \<lparr>contract_balanceOf := (\<lambda>a u. if a = ''0xA'' then Inl ''slow node''
                                   else if a = ''0xB'' then Inl ''fast node''
                                   else Inr 1000000000000000000),
      settle_time := (\<lambda>r. if r = BalanceOf ''0xA'' ''0xUser'' then 5
                            else if r = BalanceOf ''0xB'' ''0xUser'' then 1 else 2)\<rparr>"


definition single_token :: "TokenContractAddress list" where
  "single_token = [\<lparr>address = ''0xC'', chain = Ethereum\<rparr>]"

section \<open>Decimal strings and binary64 rounding\<close>

declare decimal.simps [simp del] bit_length.simps [simp del]

lemma decimal_numeral [simp]:
  "decimal (numeral k) =
     (if (numeral k :: nat) < 10 then [digit_char (numeral k)]
      else decimal (numeral k div 10) @ [digit_char (numeral k mod 10)])"
  by (rule decimal.simps)

lemma decimal_0 [simp]: "decimal 0 = ''0''"
  by (simp add: decimal.simps digit_char_def)

lemma decimal_1 [simp]: "decimal (Suc 0) = ''1''"
  by (simp add: decimal.simps digit_char_def)

lemma bit_length_numeral [simp]:
  "bit_length (numeral k) = Suc (bit_length (numeral k div 2))"
  by (subst bit_length.simps) simp

lemma bit_length_0 [simp]: "bit_length 0 = 0"
  by (simp add: bit_length.simps)

lemma bit_length_1 [simp]: "bit_length (Suc 0) = 1"
  by (simp add: bit_length.simps)

lemma floor_rat_numeral_div [simp]:
  "\<lfloor>numeral a / numeral b :: rat\<rfloor> = numeral a div numeral b"
  using floor_divide_of_int_eq [of "numeral a" "numeral b", where ?'a = rat] by simp

lemma replicate_numeral [simp]:
  "replicate (numeral k) x = x # replicate (pred_numeral k) x"
  by (simp add: numeral_eq_Suc)

subsection \<open>Digits\<close>

lemma digit_cases: "d < 10 \<Longrightarrow> d \<in> {0, 1, 2, 3, 4, 5, 6, 7, 8, 9 :: nat}"
  by auto

lemma is_digit_digit_char: "d < 10 \<Longrightarrow> is_digit (digit_char d)"
  using digit_cases [of d] by (auto simp: is_digit_def digit_char_def)

lemma digit_val_digit_char: "d < 10 \<Longrightarrow> digit_val (digit_char d) = d"
  using digit_cases [of d] by (auto simp: digit_val_def digit_char_def)

lemma not_is_digit_point [simp]: "\<not> is_digit CHR ''.''"
  by (simp add: is_digit_def)

lemma is_digit_zero [simp]: "is_digit CHR ''0''"
  by (simp add: is_digit_def)

lemma digit_val_zero [simp]: "digit_val CHR ''0'' = 0"
  by (simp add: digit_val_def)

lemma decimal_digits: "list_all is_digit (decimal n)"
proof (induction n rule: decimal.induct)
  case (1 n)
  then show ?case
    by (subst decimal.simps) (simp add: is_digit_digit_char)
qed

lemma decimal_not_empty [simp]: "decimal n \<noteq> []"
  by (subst decimal.simps) simp

lemma digits_val_append:
  "digits_val (xs @ ys) = digits_val xs * 10 ^ length ys + digits_val ys"
proof (induction ys rule: rev_induct)
  case Nil
  show ?case by (simp add: digits_val_def)
next
  case (snoc y ys)
  then show ?case
    by (simp add: digits_val_def flip: append_assoc)
qed

lemma digits_val_single [simp]: "digits_val [c] = digit_val c"
  by (simp add: digits_val_def)

lemma digits_val_Nil [simp]: "digits_val [] = 0"
  by (simp add: digits_val_def)

lemma digits_val_decimal: "digits_val (decimal n) = n"
proof (induction n rule: decimal.induct)
  case (1 n)
  show ?case
  proof (cases "n < 10")
    case True
    then show ?thesis
      by (subst decimal.simps) (simp add: digit_val_digit_char)
  next
    case False
    with 1 show ?thesis
      by (subst decimal.simps) (simp add: digits_val_append digit_val_digit_char)
  qed
qed

lemma length_decimal_le: "n < 10 ^ k \<Longrightarrow> 0 < k \<Longrightarrow> length (decimal n) \<le> k"
proof (induction n arbitrary: k rule: decimal.induct)
  case (1 n)
  show ?case
  proof (cases "n < 10")
    case True
    with 1(3) show ?thesis
      by (subst decimal.simps) simp
  next
    case False
    with 1(2) have "1 < k"
      by (cases k; cases "k - 1") auto
    then obtain j where k: "k = Suc j" "0 < j"
      by (cases k) auto
    with 1(2) have "n div 10 < 10 ^ j"
      by (simp add: less_mult_imp_div_less mult.commute)
    with 1(1) [OF False this k(2)] k False show ?thesis
      by (subst decimal.simps) simp
  qed
qed

lemma digits_val_replicate_zero [simp]: "digits_val (replicate k CHR ''0'') = 0"
proof (induction k)
  case 0
  show ?case by simp
next
  case (Suc k)
  have "replicate (Suc k) CHR ''0'' = replicate k CHR ''0'' @ ''0''"
    by (simp add: replicate_append_same)
  with Suc show ?case
    by (simp only: digits_val_append) simp
qed

subsection \<open>Trailing zeros\<close>

lemma all_zero_replicate:
  "\<forall>c \<in> set z. c = CHR ''0'' \<Longrightarrow> z = replicate (length z) CHR ''0''"
  by (induction z) simp_all

lemma strip_split:
  obtains t z where "s = t @ replicate z CHR ''0''"
    and "strip_trailing_zeros s = (if t = [] then ''0'' else t)"
proof -
  let ?z = "takeWhile (\<lambda>c. c = CHR ''0'') (rev s)"
  let ?t = "dropWhile (\<lambda>c. c = CHR ''0'') (rev s)"
  have "rev s = ?z @ ?t"
    by simp
  then have "s = rev ?t @ rev ?z"
    by (metis rev_append rev_rev_ident)
  moreover have "rev ?z = replicate (length ?z) CHR ''0''"
    using all_zero_replicate [of "rev ?z"] by (auto dest: set_takeWhileD)
  ultimately have "s = rev ?t @ replicate (length ?z) CHR ''0''"
    by simp
  moreover have "strip_trailing_zeros s = (if rev ?t = [] then ''0'' else rev ?t)"
    by (simp add: strip_trailing_zeros_def Let_def)
  ultimately show ?thesis
    using that by blast
qed

lemma strip_digits: "list_all is_digit s \<Longrightarrow> list_all is_digit (strip_trailing_zeros s)"
  by (rule strip_split [of s]) (auto split: if_splits)

lemma strip_ratio:
  "(of_nat (digits_val (strip_trailing_zeros s)) :: rat) / 10 ^ length (strip_trailing_zeros s) =
   of_nat (digits_val s) / 10 ^ length s"
proof (rule strip_split [of s])
  fix t z
  assume s: "s = t @ replicate z CHR ''0''"
    and st: "strip_trailing_zeros s = (if t = [] then ''0'' else t)"
  show ?thesis
  proof (cases "t = []")
    case True
    with s st show ?thesis by simp
  next
    case False
    with st have "strip_trailing_zeros s = t" by simp
    then show ?thesis
      by (simp add: s digits_val_append power_add)
  qed
qed

subsection \<open>formatUnits and parseFloat\<close>

lemma parseFloat_point:
  assumes "list_all is_digit w" "w \<noteq> []" "list_all is_digit f"
  shows "parseFloat (w @ ''.'' @ f) = round_to_double (of_nat (digits_val (w @ f)) / 10 ^ length f)"
proof -
  have w: "\<forall>c \<in> set w. is_digit c" and f: "\<forall>c \<in> set f. is_digit c"
    using assms by (simp_all add: list_all_iff)
  have "takeWhile is_digit (w @ ''.'' @ f) = w"
    using w by (simp add: takeWhile_append2)
  moreover have "dropWhile is_digit (w @ ''.'' @ f) = ''.'' @ f"
    using w by (simp add: dropWhile_append2)
  moreover have "takeWhile is_digit f = f"
    using f by (simp add: takeWhile_eq_all_conv)
  ultimately show ?thesis
    using assms(2) by (simp add: parseFloat_def Let_def del: takeWhile_eq_all_conv)
qed

lemma formatUnits_value:
  assumes "0 < d"
  shows "parseFloat (formatUnits v d) = round_to_double (of_nat v / 10 ^ d)"
proof -
  let ?fr = "decimal (v mod 10 ^ d)"
  let ?pad = "replicate (d - length ?fr) CHR ''0'' @ ?fr"
  let ?w = "decimal (v div 10 ^ d)"
  let ?f = "strip_trailing_zeros ?pad"
  have fmt: "formatUnits v d = ?w @ ''.'' @ ?f"
    using assms by (simp add: formatUnits_def Let_def)
  have "length ?fr \<le> d"
    using assms by (simp add: length_decimal_le)
  then have len: "length ?pad = d"
    by simp
  have val: "digits_val ?pad = v mod 10 ^ d"
    by (simp add: digits_val_append digits_val_decimal)
  have pad_digits: "list_all is_digit ?pad"
    using decimal_digits [of "v mod 10 ^ d"] by (auto simp: list_all_iff)
  have ratio: "(of_nat (digits_val ?f) :: rat) / 10 ^ length ?f = of_nat (v mod 10 ^ d) / 10 ^ d"
    using strip_ratio [of ?pad] by (simp only: len val)
  have "(of_nat (digits_val (?w @ ?f)) :: rat) / 10 ^ length ?f =
        of_nat (v div 10 ^ d) + of_nat (digits_val ?f) / 10 ^ length ?f"
    by (simp add: digits_val_append digits_val_decimal add_divide_distrib)
  also have "\<dots> = of_nat (v div 10 ^ d) + of_nat (v mod 10 ^ d) / 10 ^ d"
    by (simp only: ratio)
  also have "\<dots> = (of_nat (v div 10 ^ d * 10 ^ d + v mod 10 ^ d)) / 10 ^ d"
    by (simp add: add_divide_distrib)
  also have "\<dots> = of_nat v / 10 ^ d"
    by (simp only: div_mult_mod_eq)
  finally have "(of_nat (digits_val (?w @ ?f)) :: rat) / 10 ^ length ?f = of_nat v / 10 ^ d" .
  then show ?thesis
    unfolding fmt
    by (simp only: parseFloat_point [OF decimal_digits decimal_not_empty strip_digits [OF pad_digits]])
qed

lemma parseFloat_formatEther:
  "parseFloat (formatEther wei) = round_to_double (of_nat wei / 10 ^ 18)"
  by (simp add: formatEther_def formatUnits_value)

subsection \<open>toFixed\<close>

lemma five_fraction_digitsI:
  assumes "list_all is_digit w" "w \<noteq> []" "list_all is_digit f" "length f = 5"
  shows "five_fraction_digits (w @ ''.'' @ f)"
proof -
  have w: "\<forall>c \<in> set w. is_digit c"
    using assms by (simp add: list_all_iff)
  have "takeWhile is_digit (w @ ''.'' @ f) = w"
    using w by (simp add: takeWhile_append2)
  moreover have "dropWhile is_digit (w @ ''.'' @ f) = ''.'' @ f"
    using w by (simp add: dropWhile_append2)
  ultimately show ?thesis
    using assms by (simp add: five_fraction_digits_def Let_def)
qed

lemma toFixed_five_fraction_digits:
  assumes "0 \<le> r" "r < 10 ^ 21"
  shows "five_fraction_digits (toFixed 5 (Finite r))"
proof -
  define n where "n = nat \<lfloor>r * 10 ^ 5 + 1 / 2\<rfloor>"
  define m where "m = (if n = 0 then ''0'' else decimal n)"
  define m' where "m' = (if length m \<le> 5 then replicate (5 + 1 - length m) CHR ''0'' @ m else m)"
  have m_digits: "list_all is_digit m" and m_ne: "m \<noteq> []"
    by (simp_all add: m_def decimal_digits)
  have m'_digits: "list_all is_digit m'"
    using m_digits by (simp add: m'_def list_all_iff)
  have len: "6 \<le> length m'"
    by (simp add: m'_def)
  have res: "toFixed 5 (Finite r) = take (length m' - 5) m' @ ''.'' @ drop (length m' - 5) m'"
    using assms by (simp add: toFixed_def Let_def n_def m_def m'_def)
  show ?thesis
    unfolding res
  proof (rule five_fraction_digitsI)
    show "list_all is_digit (take (length m' - 5) m')"
      using m'_digits by (auto simp: list_all_iff dest: in_set_takeD)
    show "take (length m' - 5) m' \<noteq> []"
      using len by auto
    show "list_all is_digit (drop (length m' - 5) m')"
      using m'_digits by (auto simp: list_all_iff dest: in_set_dropD)
    show "length (drop (length m' - 5) m') = 5"
      using len by simp
  qed
qed

subsection \<open>Rounding below \<open>10^21\<close>\<close>

lemma bit_length_bound: "0 < n \<Longrightarrow> 2 ^ bit_length n \<le> 2 * n"
proof (induction n rule: bit_length.induct)
  case (1 n)
  show ?case
  proof (cases "n div 2 = 0")
    case True
    with 1(2) have "n = 1" by auto
    then show ?thesis by simp
  next
    case False
    with 1 have "2 ^ bit_length (n div 2) \<le> 2 * (n div 2)"
      by simp
    also have "\<dots> \<le> n" by simp
    finally show ?thesis
      using 1(2) by (subst bit_length.simps) simp
  qed
qed

lemma bit_length_pos: "0 < n \<Longrightarrow> 0 < bit_length n"
  by (subst bit_length.simps) simp

lemma pow2_pos [simp]: "0 < pow2 e"
  by (simp add: pow2_def)

lemma pow2_le_17: "e \<le> 17 \<Longrightarrow> pow2 e \<le> 131072"
proof (cases "0 \<le> e")
  case True
  assume "e \<le> 17"
  with True have "nat e \<le> 17" by simp
  then have "(2::rat) ^ nat e \<le> 2 ^ 17"
    by (intro power_increasing) simp_all
  with True show ?thesis by (simp add: pow2_def)
next
  case False
  have "(1::rat) \<le> 2 ^ nat (- e)" by simp
  then have "1 / 2 ^ nat (- e) \<le> (1::rat)"
    by (simp add: divide_le_eq_1)
  then have "1 / 2 ^ nat (- e) \<le> (131072::rat)"
    by linarith
  with False show ?thesis by (simp add: pow2_def)
qed

lemma floor_log2_le:
  assumes "0 < q" "q < 2 ^ 70"
  shows "floor_log2 q \<le> 69"
proof (cases "1 \<le> q")
  case True
  define n where "n = nat \<lfloor>q\<rfloor>"
  from True have n: "0 < n" "of_nat n \<le> q"
    by (simp_all add: n_def)
  with assms(2) have "(of_nat n :: rat) < 2 ^ 70" by simp
  then have "n < 2 ^ 70"
    by (metis of_nat_less_iff of_nat_numeral of_nat_power)
  with bit_length_bound [OF n(1)] have "(2::nat) ^ bit_length n < 2 ^ 71"
    by simp
  have "\<not> 71 \<le> bit_length n"
  proof
    assume "71 \<le> bit_length n"
    then have "(2::nat) ^ 71 \<le> 2 ^ bit_length n"
      by (intro power_increasing) simp_all
    with \<open>(2::nat) ^ bit_length n < 2 ^ 71\<close> show False
      by simp
  qed
  then have "bit_length n < 71"
    by simp
  with True show ?thesis
    by (simp add: floor_log2_def n_def)
next
  case False
  with assms(1) have "1 < 1 / q" by simp
  then have "0 < nat \<lfloor>1 / q\<rfloor>"
    by (simp add: less_imp_le)
  then have "0 < bit_length (nat \<lfloor>1 / q\<rfloor>)"
    by (rule bit_length_pos)
  with False show ?thesis
    by (simp add: floor_log2_def Let_def)
qed

lemma round_half_even_le: "of_int (round_half_even x) \<le> x + 1 / 2"
proof -
  define d where "d = x - of_int \<lfloor>x\<rfloor>"
  have x: "x = of_int \<lfloor>x\<rfloor> + d"
    by (simp add: d_def)
  have "0 \<le> d"
    by (simp add: d_def)
  consider "d < 1 / 2" | "1 / 2 < d" | "d = 1 / 2"
    by linarith
  then show ?thesis
  proof cases
    case 1
    with \<open>0 \<le> d\<close> have "of_int \<lfloor>x\<rfloor> \<le> of_int \<lfloor>x\<rfloor> + d + 1 / 2"
      by simp
    with 1 show ?thesis
      by (simp add: round_half_even_def Let_def flip: d_def x)
  next
    case 2
    then have "of_int \<lfloor>x\<rfloor> + 1 \<le> of_int \<lfloor>x\<rfloor> + d + 1 / 2"
      by simp
    with 2 show ?thesis
      by (simp add: round_half_even_def Let_def flip: d_def x)
  next
    case 3
    then have "of_int \<lfloor>x\<rfloor> + 1 \<le> of_int \<lfloor>x\<rfloor> + d + 1 / 2"
      and "of_int \<lfloor>x\<rfloor> \<le> of_int \<lfloor>x\<rfloor> + d + 1 / 2"
      by simp_all
    with 3 show ?thesis
      by (simp add: round_half_even_def Let_def flip: d_def x)
  qed
qed

lemma round_half_even_nonneg: "0 \<le> x \<Longrightarrow> 0 \<le> round_half_even x"
  by (auto simp: round_half_even_def Let_def)

lemma round_to_double_below:
  assumes "0 \<le> q" "q < 10 ^ 21 - 65536"
  shows "\<exists>x. round_to_double q = Finite x \<and> 0 \<le> x \<and> x < 10 ^ 21"
proof (cases "q = 0")
  case True
  then show ?thesis by (simp add: round_to_double_def)
next
  case False
  with assms have pos: "0 < q" by simp
  define e where "e = max (floor_log2 q - 52) (- 1074)"
  define m where "m = round_half_even (q / pow2 e)"
  define v where "v = of_int m * pow2 e"
  have "q < 2 ^ 70"
    using assms(2) by simp
  then have "e \<le> 17"
    using floor_log2_le [OF pos] by (simp add: e_def)
  then have p: "pow2 e \<le> 131072"
    by (rule pow2_le_17)
  have "of_int m \<le> q / pow2 e + 1 / 2"
    unfolding m_def by (rule round_half_even_le)
  then have "v \<le> (q / pow2 e + 1 / 2) * pow2 e"
    unfolding v_def by (simp add: mult_right_mono less_imp_le)
  also have "\<dots> = q + pow2 e / 2"
  proof -
    have "pow2 e \<noteq> 0"
      by (simp add: pow2_def)
    then show ?thesis
      by (simp add: distrib_right)
  qed
  also have "\<dots> \<le> q + 65536"
    using p by simp
  finally have upper: "v < 10 ^ 21"
    using assms(2) by simp
  have "0 \<le> m"
    unfolding m_def using pos by (intro round_half_even_nonneg) (simp add: less_imp_le)
  then have lower: "0 \<le> v"
    unfolding v_def by (simp add: less_imp_le)
  have "v < pow2 1024"
    using upper by (simp add: pow2_def)
  then have "round_to_double q = Finite v"
    using False by (simp add: round_to_double_def Let_def e_def m_def v_def)
  with lower upper show ?thesis by blast
qed

lemma formatNative_five_fraction_digits:
  assumes "b < native_bound"
  shows "five_fraction_digits (formatNative b)"
proof -
  have "(of_nat b :: rat) < of_nat native_bound"
    using assms by (simp only: of_nat_less_iff)
  then have "(of_nat b :: rat) / 10 ^ 18 < 10 ^ 21 - 65536"
    by (simp add: native_bound_def divide_less_eq)
  then obtain x where "round_to_double (of_nat b / 10 ^ 18) = Finite x" "0 \<le> x" "x < 10 ^ 21"
    using round_to_double_below [of "of_nat b / 10 ^ 18"] by auto
  then show ?thesis
    by (simp add: formatNative_def parseFloat_formatEther toFixed_five_fraction_digits)
qed

subsection \<open>Rounding from \<open>10^21 - 65536\<close> on\<close>

lemma bit_length_upper: "n < 2 ^ bit_length n"
proof (induction n rule: bit_length.induct)
  case (1 n)
  show ?case
  proof (cases "n = 0")
    case True
    then show ?thesis by simp
  next
    case False
    with 1 have "n div 2 < 2 ^ bit_length (n div 2)"
      by simp
    then have "n < 2 * 2 ^ bit_length (n div 2)"
      by linarith
    with False show ?thesis
      by (subst bit_length.simps) simp
  qed
qed

lemma pow2_nonneg: "0 \<le> e \<Longrightarrow> pow2 e = 2 ^ nat e"
  by (simp add: pow2_def)

lemma floor_log2_large:
  assumes "1 \<le> q"
  shows "pow2 (floor_log2 q) \<le> q" and "2 ^ k \<le> q \<Longrightarrow> int k \<le> floor_log2 q"
proof -
  define n where "n = nat \<lfloor>q\<rfloor>"
  from assms have n: "0 < n" "of_nat n \<le> q"
    by (simp_all add: n_def)
  have L: "floor_log2 q = int (bit_length n) - 1"
    using assms by (simp add: floor_log2_def n_def)
  have pos: "0 < bit_length n"
    using n(1) by (rule bit_length_pos)
  have "2 * 2 ^ (bit_length n - 1) = (2::nat) ^ bit_length n"
    using pos by (cases "bit_length n") simp_all
  with bit_length_bound [OF n(1)] have "(2::nat) ^ (bit_length n - 1) \<le> n"
    by simp
  then have "(of_nat (2 ^ (bit_length n - 1)) :: rat) \<le> of_nat n"
    by (simp only: of_nat_le_iff)
  from this n(2) have "(of_nat (2 ^ (bit_length n - 1)) :: rat) \<le> q"
    by (rule order_trans)
  then have "(2::rat) ^ (bit_length n - 1) \<le> q"
    by simp
  moreover have "nat (int (bit_length n) - 1) = bit_length n - 1"
    by simp
  ultimately show "pow2 (floor_log2 q) \<le> q"
    using pos by (simp add: L pow2_def)
  show "int k \<le> floor_log2 q" if "2 ^ k \<le> q"
  proof -
    have "(2::int) ^ k \<le> \<lfloor>q\<rfloor>"
      using that by (simp add: le_floor_iff)
    then have "2 ^ k \<le> n"
      unfolding n_def by (simp add: le_nat_iff)
    also have "n < 2 ^ bit_length n"
      by (rule bit_length_upper)
    finally have "k < bit_length n"
      by (simp add: power_strict_increasing_iff)
    then show ?thesis
      by (simp add: L)
  qed
qed

lemma round_half_even_ge_floor: "\<lfloor>x\<rfloor> \<le> round_half_even x"
  by (simp add: round_half_even_def Let_def)

lemma round_half_even_tie_odd:
  assumes "odd k" "of_int k + 1 / 2 \<le> x"
  shows "k + 1 \<le> round_half_even x"
proof (cases "k + 1 \<le> \<lfloor>x\<rfloor>")
  case True
  with round_half_even_ge_floor [of x] show ?thesis by linarith
next
  case False
  have "of_int k \<le> x"
    using assms(2) by linarith
  then have "k \<le> \<lfloor>x\<rfloor>"
    by (simp add: le_floor_iff)
  with False have f: "\<lfloor>x\<rfloor> = k" by linarith
  from assms(2) have "1 / 2 \<le> x - of_int k" by linarith
  with assms(1) show ?thesis
    by (auto simp: round_half_even_def Let_def f)
qed

lemma round_to_double_above:
  assumes "10 ^ 21 - 65536 \<le> q"
  shows "round_to_double q = Infinity \<or> (\<exists>v. round_to_double q = Finite v \<and> 10 ^ 21 \<le> v)"
proof -
  from assms have q1: "1 \<le> q" and q0: "q \<noteq> 0"
    by simp_all
  define L where "L = floor_log2 q"
  define e where "e = max (L - 52) (- 1074)"
  define m where "m = round_half_even (q / pow2 e)"
  define v where "v = of_int m * pow2 e"
  have "(2::rat) ^ 69 \<le> q"
    using assms by simp
  then have L69: "69 \<le> L"
    using floor_log2_large(2) [OF q1, of 69] by (simp add: L_def)
  then have e: "e = L - 52" "0 \<le> e"
    by (simp_all add: e_def)
  have "10 ^ 21 \<le> v"
  proof (cases "L = 69")
    case True
    then have p: "pow2 e = 131072"
      by (simp add: e pow2_def)
    have "of_int 7629394531249999 + 1 / 2 \<le> q / pow2 e"
      using assms by (simp add: p)
    then have "7629394531249999 + 1 \<le> m"
      unfolding m_def by (intro round_half_even_tie_odd) simp_all
    then have "(7629394531250000::rat) \<le> of_int m"
      by linarith
    then show ?thesis
      by (simp add: v_def p)
  next
    case False
    with L69 have L70: "70 \<le> L" by simp
    have split: "pow2 L = 2 ^ 52 * pow2 e"
    proof -
      have "nat L = 52 + nat e"
        using e L70 by simp
      then show ?thesis
        using e L70 by (simp add: pow2_def power_add)
    qed
    have "pow2 L \<le> q"
      unfolding L_def by (rule floor_log2_large(1) [OF q1])
    then have "2 ^ 52 \<le> q / pow2 e"
      by (simp add: split le_divide_eq)
    then have "(2::int) ^ 52 \<le> \<lfloor>q / pow2 e\<rfloor>"
      by (simp add: le_floor_iff)
    with round_half_even_ge_floor [of "q / pow2 e"] have "2 ^ 52 \<le> m"
      unfolding m_def by linarith
    then have "(2::rat) ^ 52 \<le> of_int m"
      by (metis of_int_le_iff of_int_numeral of_int_power)
    then have "2 ^ 52 * pow2 e \<le> v"
      unfolding v_def by (simp add: mult_right_mono less_imp_le)
    then have "pow2 L \<le> v"
      by (simp only: split)
    moreover have "(2::rat) ^ 70 \<le> pow2 L"
    proof -
      have "70 \<le> nat L" using L70 by simp
      then have "(2::rat) ^ 70 \<le> 2 ^ nat L"
        by (intro power_increasing) simp_all
      then show ?thesis
        using L70 by (simp add: pow2_def)
    qed
    ultimately have "(2::rat) ^ 70 \<le> v"
      by linarith
    then show ?thesis
      by simp
  qed
  moreover have "round_to_double q = (if pow2 1024 \<le> v then Infinity else Finite v)"
    using q0 by (simp add: round_to_double_def Let_def v_def m_def e_def L_def)
  ultimately show ?thesis
    by auto
qed

subsection \<open>What \<^verbatim>\<open>toFixed\<close> prints from \<open>10^21\<close> on\<close>

lemma not_is_digit_e [simp]: "\<not> is_digit CHR ''e''"
  by (simp add: is_digit_def)

lemma not_five_digits_only:
  assumes "list_all is_digit s"
  shows "\<not> five_fraction_digits s"
proof -
  have "dropWhile is_digit s = []"
    using assms by (simp add: list_all_iff)
  then show ?thesis
    by (simp add: five_fraction_digits_def Let_def del: dropWhile_eq_Nil_conv)
qed

lemma not_five_exponent:
  assumes "list_all is_digit w"
  shows "\<not> five_fraction_digits (w @ ''e+'' @ t)"
proof -
  have w: "\<forall>c \<in> set w. is_digit c"
    using assms by (simp add: list_all_iff)
  have "dropWhile is_digit (w @ ''e+'' @ t) = ''e+'' @ t"
    using w by (simp add: dropWhile_append2)
  then show ?thesis
    by (simp add: five_fraction_digits_def Let_def)
qed

lemma not_five_point_exponent:
  assumes "list_all is_digit w"
  shows "\<not> five_fraction_digits (w @ ''.'' @ f @ ''e+'' @ t)"
proof -
  have w: "\<forall>c \<in> set w. is_digit c"
    using assms by (simp add: list_all_iff)
  have "dropWhile is_digit (w @ ''.'' @ f @ ''e+'' @ t) = ''.'' @ f @ ''e+'' @ t"
    using w by (simp add: dropWhile_append2)
  then show ?thesis
    by (simp add: five_fraction_digits_def Let_def)
qed

lemma not_five_exponent_notation: "\<not> five_fraction_digits (exponent_notation x)"
proof (cases "shortest_digits x 1 17")
  case None
  then show ?thesis
    by (simp add: exponent_notation_def not_five_digits_only decimal_digits)
next
  case (Some nks)
  obtain n k s where nks: "nks = (n, k, s)"
    by (cases nks) auto
  have take1: "list_all is_digit (take 1 (decimal s))"
    using decimal_digits [of s] by (auto simp: list_all_iff dest: in_set_takeD)
  show ?thesis
  proof (cases "k = 1")
    case True
    with Some nks show ?thesis
      using not_five_exponent [OF decimal_digits, of s "decimal (n - 1)"]
      by (simp add: exponent_notation_def Let_def)
  next
    case False
    with Some nks show ?thesis
      using not_five_point_exponent [OF take1, of "drop 1 (decimal s)" "decimal (n - 1)"]
      by (simp add: exponent_notation_def Let_def)
  qed
qed

lemma not_five_Infinity: "\<not> five_fraction_digits (toFixed 5 Infinity)"
  by (simp add: toFixed_def five_fraction_digits_def is_digit_def)

lemma not_five_large: "10 ^ 21 \<le> v \<Longrightarrow> \<not> five_fraction_digits (toFixed 5 (Finite v))"
  by (simp add: toFixed_def not_five_exponent_notation)

lemma formatNative_beyond_bound:
  assumes "native_bound \<le> b"
  shows "\<not> five_fraction_digits (formatNative b)"
proof -
  have "(of_nat native_bound :: rat) \<le> of_nat b"
    using assms by (simp only: of_nat_le_iff)
  then have "10 ^ 21 - 65536 \<le> (of_nat b :: rat) / 10 ^ 18"
    by (simp add: native_bound_def le_divide_eq)
  from round_to_double_above [OF this] show ?thesis
    by (auto simp: formatNative_def parseFloat_formatEther not_five_Infinity not_five_large)
qed

lemma formatNative_five_iff: "five_fraction_digits (formatNative b) \<longleftrightarrow> b < native_bound"
  using formatNative_five_fraction_digits [of b] formatNative_beyond_bound [of b]
  by (cases "b < native_bound") simp_all

subsection \<open>Concrete conversions\<close>

lemmas round_defs = round_to_double_def floor_log2_def pow2_def round_half_even_def Let_def
lemmas format_defs = formatUnits_def strip_trailing_zeros_def digit_char_def Let_def

lemma shortest_digits_numeral:
  "shortest_digits x k (numeral n) =
     (case digit_candidates x k of
        [] \<Rightarrow> shortest_digits x (Suc k) (pred_numeral n)
      | c # cs \<Rightarrow> (case closest x k c cs of (n, s) \<Rightarrow> Some (n, k, s)))"
  by (simp add: numeral_eq_Suc)

lemma formatEther_one: "formatEther 1000000000000000000 = ''1.0''"
  by (simp add: formatEther_def format_defs)

lemma formatUnits_one: "formatUnits 1000000000000000000 18 = ''1.0''"
  by (simp add: format_defs)

lemma round_one: "round_to_double 1 = Finite 1"
  by (simp add: round_defs)

lemma round_zero: "round_to_double 0 = Finite 0"
  by (simp add: round_defs)

lemma round_op: "round_to_double (1234567890123456789 / 10 ^ 18) =
    Finite (5559999489923579 / 4503599627370496)"
  by (simp add: round_defs)

lemma round_avax: "round_to_double (2500000000000000000 / 10 ^ 18) = Finite (5 / 2)"
  by (simp add: round_defs)

lemma round_1e21: "round_to_double 1000000000000000000000 = Finite 1000000000000000000000"
  by (simp add: round_defs)

lemma round_2e21: "round_to_double 2000000000000000000000 = Finite 2000000000000000000000"
  by (simp add: round_defs)

lemma round_1e22: "round_to_double 10000000000000000000000 = Finite 10000000000000000000000"
  by (simp add: round_defs)

lemma toFixed_one: "toFixed 5 (Finite 1) = ''1.00000''"
  by (simp add: toFixed_def digit_char_def)

lemma toFixed_zero: "toFixed 5 (Finite 0) = ''0.00000''"
  by (simp add: toFixed_def digit_char_def)

lemma toFixed_op: "toFixed 5 (Finite (5559999489923579 / 4503599627370496)) = ''1.23457''"
  by (simp add: toFixed_def digit_char_def)

lemma toFixed_avax: "toFixed 5 (Finite (5 / 2)) = ''2.50000''"
  by (simp add: toFixed_def digit_char_def)

lemma candidates_1e21: "digit_candidates 1000000000000000000000 (Suc 0) = [(22, 1)]"
  by (simp add: digit_candidates_def digit_char_def round_1e21 round_2e21 round_1e22)

lemma toFixed_1e21: "toFixed 5 (Finite 1000000000000000000000) = ''1e+21''"
  by (simp add: toFixed_def exponent_notation_def shortest_digits_numeral candidates_1e21
        digit_char_def)

lemma formatNative_one: "formatNative 1000000000000000000 = ''1.00000''"
  by (simp add: formatNative_def parseFloat_formatEther round_one toFixed_one)

lemma formatNative_zero: "formatNative 0 = ''0.00000''"
  by (simp add: formatNative_def parseFloat_formatEther round_zero toFixed_zero)

lemma formatNative_op: "formatNative 1234567890123456789 = ''1.23457''"
  using round_op by (simp add: formatNative_def parseFloat_formatEther toFixed_op)

lemma formatNative_avax: "formatNative 2500000000000000000 = ''2.50000''"
  using round_avax by (simp add: formatNative_def parseFloat_formatEther toFixed_avax)

lemma formatNative_1e39: "formatNative (10 ^ 39) = ''1e+21''"
  by (simp add: formatNative_def parseFloat_formatEther round_1e21 toFixed_1e21)

text \<open>The bound is sharp: at the bound itself the amount already rounds to \<open>10^21\<close>.\<close>

lemma round_tie: "round_to_double 999999999999999934464 = Finite 1000000000000000000000"
  by (simp add: round_defs)

lemma formatNative_native_bound: "formatNative native_bound = ''1e+21''"
  by (simp add: formatNative_def parseFloat_formatEther native_bound_def round_tie toFixed_1e21)

lemma example_getBalance:
  "fst (getBalance example_providers ''0xUser'') =
     Inr \<lparr>eth = ''1.00000'', arb = ''0.00000'', op = ''1.23457'', avax = ''2.50000''\<rparr>"
  by (simp add: getBalance_def example_providers_def formatNative_one formatNative_zero
        formatNative_op formatNative_avax)

lemma huge_getBalance:
  "fst (getBalance huge_balance ''0xUser'') =
     Inr \<lparr>eth = ''1e+21'', arb = ''0.00000'', op = ''0.00000'', avax = ''0.00000''\<rparr>"
  using formatNative_1e39
  by (simp add: getBalance_def huge_balance_def formatNative_zero)

lemma not_five_1e21: "\<not> five_fraction_digits ''1e+21''"
  by (simp add: five_fraction_digits_def is_digit_def)

section \<open>Evaluation of the concrete runs\<close>

lemmas run_defs = getTokenBalance_def alchemyBlock_def avalancheBlock_def chainTokens_def
  getAvalancheTokenBalances_def avalancheTokenBalance_def processTokenBalancesResponse_def
  example_tokens_def avalanche_pair_def avalanche_only_def single_token_def Let_def

lemma example_run:
  "getTokenBalance example_providers ''0xUser'' example_tokens =
     (Inr example_output,
      \<lparr>requests = [TokenBalances Ethereum ''0xUser'' [''0xC'', ''0xA''],
                    TokenBalances Arbitrum ''0xUser'' [''0xD''],
                    BalanceOf ''0xB'' ''0xUser'', Decimals ''0xB''],
       console = []\<rparr>)"
  by (simp add: run_defs example_providers_def example_output_def)

lemma rejecting_arbitrum_run:
  "getTokenBalance rejecting_arbitrum ''0xUser'' example_tokens =
     (Inl (Error ''Not valid contract_addresses''),
      \<lparr>requests = [TokenBalances Ethereum ''0xUser'' [''0xC'', ''0xA''],
                    TokenBalances Arbitrum ''0xUser'' [''0xD'']],
       console = [''rate limited'']\<rparr>)"
  by (simp add: run_defs example_providers_def rejecting_arbitrum_def)

lemma rejecting_ethereum_run:
  "getTokenBalance rejecting_ethereum ''0xUser'' example_tokens =
     (Inl (Error ''Not valid contract_addresses''),
      \<lparr>requests = [TokenBalances Ethereum ''0xUser'' [''0xC'', ''0xA'']],
       console = [''timeout'']\<rparr>)"
  by (simp add: run_defs example_providers_def rejecting_ethereum_def)

lemma rejecting_ethereum_getBalance:
  "getBalance rejecting_ethereum ''0xUser'' =
     (Inl (Rejected ''timeout''), [NativeBalance Ethereum ''0xUser''])"
  by (simp add: getBalance_def rejecting_ethereum_def)

lemma reverting_contract_batch:
  "getAvalancheTokenBalances reverting_contract ''0xUser'' [''0xA'', ''0xB''] =
     (Inl ''execution reverted'',
      [BalanceOf ''0xA'' ''0xUser'', Decimals ''0xA'', BalanceOf ''0xB'' ''0xUser'', Decimals ''0xB''])"
  by (simp add: run_defs example_providers_def reverting_contract_def)

lemma reverting_contract_run:
  "getTokenBalance reverting_contract ''0xUser'' avalanche_pair =
     (Inl (Error ''Not valid contract_addresses''),
      \<lparr>requests = [BalanceOf ''0xA'' ''0xUser'', Decimals ''0xA'',
                    BalanceOf ''0xB'' ''0xUser'', Decimals ''0xB''],
       console = [''execution reverted'']\<rparr>)"
  by (simp add: run_defs example_providers_def reverting_contract_def)

section \<open>\<^verbatim>\<open>Promise.all\<close> and the Avalanche batch\<close>

lemma promise_all_Inl: "snd (promise_all ps) = Inl e \<Longrightarrow> \<exists>t. (t, Inl e) \<in> set ps"
  by (induction ps arbitrary: e rule: promise_all.induct)
     (auto split: prod.splits sum.splits if_splits)

lemma promise_all_isl: "isl (snd (promise_all ps)) \<longleftrightarrow> (\<exists>p \<in> set ps. isl (snd p))"
  by (induction ps rule: promise_all.induct) (auto split: prod.splits sum.splits)

lemma promise_all_Inr: "snd (promise_all ps) = Inr vs \<Longrightarrow> map snd ps = map Inr vs"
  by (induction ps arbitrary: vs rule: promise_all.induct)
     (auto split: prod.splits sum.splits if_splits)

lemma promise_all_fulfils: "map snd ps = map Inr vs \<Longrightarrow> snd (promise_all ps) = Inr vs"
  by (induction ps arbitrary: vs rule: promise_all.induct)
     (auto split: prod.splits sum.splits)

lemma avalancheTokenBalance_isl:
  "isl (snd (avalancheTokenBalance P u a)) \<longleftrightarrow>
     isl (contract_balanceOf P a u) \<or> isl (contract_decimals P a)"
  by (cases "contract_balanceOf P a u"; cases "contract_decimals P a")
     (simp_all add: avalancheTokenBalance_def)

lemma avalancheTokenBalance_Inl:
  "snd (avalancheTokenBalance P u a) = Inl e \<Longrightarrow>
     e \<in> set (sum_causes (contract_balanceOf P a u) @ sum_causes (contract_decimals P a))"
  by (cases "contract_balanceOf P a u"; cases "contract_decimals P a")
     (auto simp: avalancheTokenBalance_def split: if_splits)

lemma avalancheTokenBalance_fulfils:
  "contract_balanceOf P a u = Inr b \<Longrightarrow> contract_decimals P a = Inr d \<Longrightarrow>
     snd (avalancheTokenBalance P u a) =
       Inr \<lparr>tokenAddress = a, chain = Avalanche,
            balance = JString (formatUnits (unat b) (unat d))\<rparr>"
  by (simp add: avalancheTokenBalance_def)

lemma avalancheTokenBalance_Inr:
  "snd (avalancheTokenBalance P u a) = Inr r \<Longrightarrow>
     tokenAddress r = a \<and> AccountCurrentTokenBalance.chain r = Avalanche"
  by (cases "contract_balanceOf P a u"; cases "contract_decimals P a")
     (auto simp: avalancheTokenBalance_def split: if_splits)

lemma getAvalancheTokenBalances_Inr:
  assumes "fst (getAvalancheTokenBalances P u as) = Inr data"
  shows "map tokenAddress data = as"
    and "\<forall>r \<in> set data. AccountCurrentTokenBalance.chain r = Avalanche"
proof -
  from assms have eq: "map (\<lambda>a. snd (avalancheTokenBalance P u a)) as = map Inr data"
    using promise_all_Inr [of "map (avalancheTokenBalance P u) as" data]
    by (simp add: getAvalancheTokenBalances_def comp_def)
  then have len: "length as = length data"
    by (metis length_map)
  have each: "snd (avalancheTokenBalance P u (as ! i)) = Inr (data ! i)" if "i < length as" for i
    using that eq len by (metis nth_map)
  show "map tokenAddress data = as"
  proof (rule nth_equalityI)
    show "length (map tokenAddress data) = length as"
      using len by simp
  next
    fix i
    assume "i < length (map tokenAddress data)"
    then have i: "i < length as"
      using len by simp
    from each [OF i] have "tokenAddress (data ! i) = as ! i"
      by (simp add: avalancheTokenBalance_Inr)
    then show "map tokenAddress data ! i = as ! i"
      using i len by simp
  qed
  show "\<forall>r \<in> set data. AccountCurrentTokenBalance.chain r = Avalanche"
  proof
    fix r
    assume "r \<in> set data"
    then obtain i where i: "i < length data" "data ! i = r"
      by (auto simp: in_set_conv_nth)
    with len each [of i] have "snd (avalancheTokenBalance P u (as ! i)) = Inr r"
      by simp
    then show "AccountCurrentTokenBalance.chain r = Avalanche"
      by (simp add: avalancheTokenBalance_Inr)
  qed
qed

lemma getAvalancheTokenBalances_isl:
  "isl (fst (getAvalancheTokenBalances P u as)) \<longleftrightarrow>
     (\<exists>a \<in> set as. isl (contract_balanceOf P a u) \<or> isl (contract_decimals P a))"
  by (simp add: getAvalancheTokenBalances_def promise_all_isl avalancheTokenBalance_isl)

lemma getAvalancheTokenBalances_Inl:
  assumes "fst (getAvalancheTokenBalances P u as) = Inl e"
  shows "\<exists>a \<in> set as.
           e \<in> set (sum_causes (contract_balanceOf P a u) @ sum_causes (contract_decimals P a))"
proof -
  from assms have "snd (promise_all (map (avalancheTokenBalance P u) as)) = Inl e"
    by (simp add: getAvalancheTokenBalances_def)
  then obtain t where "(t, Inl e) \<in> set (map (avalancheTokenBalance P u) as)"
    using promise_all_Inl by blast
  then obtain a where "a \<in> set as" "snd (avalancheTokenBalance P u a) = Inl e"
    by (auto simp: image_iff) (metis snd_conv)
  then show ?thesis
    using avalancheTokenBalance_Inl by blast
qed

text \<open>
  When every request fulfils, the batch fulfils with one record per contract, in input
  order, each holding the string that \<^verbatim>\<open>formatUnits\<close> made of the contract's answers.
\<close>

lemma getAvalancheTokenBalances_fulfils:
  assumes "\<forall>a \<in> set as. \<not> isl (contract_balanceOf P a u) \<and> \<not> isl (contract_decimals P a)"
  shows "fst (getAvalancheTokenBalances P u as) =
    Inr (map (\<lambda>a. \<lparr>tokenAddress = a, chain = Avalanche,
                     balance = JString (formatUnits (unat (projr (contract_balanceOf P a u)))
                                                    (unat (projr (contract_decimals P a))))\<rparr>) as)"
proof -
  have "snd (avalancheTokenBalance P u a) =
      Inr \<lparr>tokenAddress = a, chain = Avalanche,
           balance = JString (formatUnits (unat (projr (contract_balanceOf P a u)))
                                          (unat (projr (contract_decimals P a))))\<rparr>"
    if "a \<in> set as" for a
    using that assms
    by (cases "contract_balanceOf P a u"; cases "contract_decimals P a")
       (auto simp: avalancheTokenBalance_fulfils)
  then have "map snd (map (avalancheTokenBalance P u) as) =
      map Inr (map (\<lambda>a. \<lparr>tokenAddress = a, chain = Avalanche,
                     balance = JString (formatUnits (unat (projr (contract_balanceOf P a u)))
                                                    (unat (projr (contract_decimals P a))))\<rparr>) as)"
    by simp
  then show ?thesis
    unfolding getAvalancheTokenBalances_def fst_conv by (rule promise_all_fulfils)
qed

section \<open>One chain's fetch\<close>

lemma sum_causes_empty: "sum_causes x = [] \<longleftrightarrow> \<not> isl x"
  by (cases x) simp_all

lemma chain_fetch_isl:
  "chainTokens c ts \<noteq> [] \<Longrightarrow>
     isl (chain_fetch P u ts c) \<longleftrightarrow> provider_failures P u ts c \<noteq> []"
  by (cases "core_getTokenBalances P c u (chainTokens c ts)")
     (auto simp: chain_fetch_def provider_failures_def getAvalancheTokenBalances_isl
        sum_causes_empty Let_def)

lemma chain_fetch_Inl:
  assumes "chainTokens c ts \<noteq> []" "chain_fetch P u ts c = Inl e"
  shows "e \<in> set (provider_failures P u ts c)"
proof (cases "c = Avalanche")
  case True
  with assms show ?thesis
    using getAvalancheTokenBalances_Inl [of P u "chainTokens c ts" e]
    by (auto simp: chain_fetch_def provider_failures_def)
next
  case False
  with assms show ?thesis
    by (cases "core_getTokenBalances P c u (chainTokens c ts)")
       (auto simp: chain_fetch_def provider_failures_def)
qed

lemma processTokenBalancesResponse_chain:
  "r \<in> set (processTokenBalancesResponse resp c) \<Longrightarrow> AccountCurrentTokenBalance.chain r = c"
  by (auto simp: processTokenBalancesResponse_def)

lemma chain_fetch_chain:
  assumes "chain_fetch P u ts c = Inr data" "r \<in> set data"
  shows "AccountCurrentTokenBalance.chain r = c"
proof (cases "c = Avalanche")
  case True
  with assms show ?thesis
    using getAvalancheTokenBalances_Inr(2) [of P u "chainTokens c ts" data]
    by (simp add: chain_fetch_def)
next
  case False
  with assms show ?thesis
    by (cases "core_getTokenBalances P c u (chainTokens c ts)")
       (auto simp: chain_fetch_def dest: processTokenBalancesResponse_chain)
qed

lemma chain_requests_chain: "r \<in> set (chain_requests u ts c) \<Longrightarrow> request_chain r = c"
  by (auto simp: chain_requests_def split: if_splits)

section \<open>Lists\<close>

lemma take_through_cong:
  "(\<And>x. x \<in> set xs \<Longrightarrow> p x = q x) \<Longrightarrow> take_through p xs = take_through q xs"
  by (induction xs) simp_all

lemma set_take_through: "set (take_through p xs) \<subseteq> set xs"
  by (induction xs) auto

lemma distinct_take_through: "distinct xs \<Longrightarrow> distinct (take_through p xs)"
  using set_take_through [of p] by (induction xs) auto

lemma filter_take_through:
  "list_ex p xs \<Longrightarrow> \<exists>x \<in> set xs. p x \<and> filter p (take_through p xs) = [x]"
  by (induction xs) auto

lemma filter_concat_keyed:
  assumes "distinct cs" "\<And>c' r. c' \<in> set cs \<Longrightarrow> r \<in> set (f c') \<Longrightarrow> g r = c'"
  shows "filter (\<lambda>r. g r = c) (concat (map f cs)) = (if c \<in> set cs then f c else [])"
  using assms
proof (induction cs)
  case Nil
  show ?case by simp
next
  case (Cons d cs)
  have keep: "filter (\<lambda>r. g r = c) (f d) = (if d = c then f d else [])"
    using Cons.prems(2) [of d] by (auto simp: filter_empty_conv intro: filter_True)
  have rest: "filter (\<lambda>r. g r = c) (concat (map f cs)) = (if c \<in> set cs then f c else [])"
    using Cons by simp
  show ?case
    using Cons.prems(1) keep rest by auto
qed

lemma concat_map_if_filter:
  "concat (map (\<lambda>c. if p c then f c else []) cs) = concat (map f (filter p cs))"
  by (induction cs) simp_all

lemma supported_chains_all [simp]: "c \<in> set supported_chains"
  by (cases c) (simp_all add: supported_chains_def)

lemma distinct_supported_chains [simp]: "distinct supported_chains"
  by (simp add: supported_chains_def)

lemma chains_with_tokens_iff [simp]:
  "c \<in> set (chains_with_tokens ts) \<longleftrightarrow> chainTokens c ts \<noteq> []"
  by (simp add: chains_with_tokens_def)

lemma distinct_chains_with_tokens [simp]: "distinct (chains_with_tokens ts)"
  by (simp add: chains_with_tokens_def)

section \<open>The four blocks of \<^verbatim>\<open>getTokenBalance\<close> in closed form\<close>

lemma chain_block_unfold:
  "chain_block P u ts c st =
     (case fst st of
        Inl e \<Rightarrow> st
      | Inr result \<Rightarrow>
          if chainTokens c ts = [] then st
          else (case chain_fetch P u ts c of
                  Inl e \<Rightarrow> (Inl generic_failure,
                    \<lparr>requests = requests (snd st) @ chain_requests u ts c,
                     console = console (snd st) @ [e]\<rparr>)
                | Inr data \<Rightarrow> (Inr (result @ data),
                    \<lparr>requests = requests (snd st) @ chain_requests u ts c,
                     console = console (snd st)\<rparr>)))"
  by (cases st; cases "snd st")
     (auto simp: chain_block_def alchemyBlock_def avalancheBlock_def chain_fetch_def
        chain_requests_def getAvalancheTokenBalances_def generic_failure_def Let_def
        split: sum.splits)

lemma getTokenBalance_foldl:
  "getTokenBalance P u ts =
     foldl (\<lambda>st c. chain_block P u ts c st) (Inr [], \<lparr>requests = [], console = []\<rparr>)
       supported_chains"
  by (simp add: getTokenBalance_def chain_block_def supported_chains_def Let_def)

lemma chain_block_failed [simp]: "chain_block P u ts c (Inl e, s) = (Inl e, s)"
  by (simp add: chain_block_unfold)

lemma chain_block_skip:
  "chainTokens c ts = [] \<Longrightarrow> chain_block P u ts c (Inr res, s) = (Inr res, s)"
  by (simp add: chain_block_unfold)

lemma chain_block_reject:
  "chainTokens c ts \<noteq> [] \<Longrightarrow> chain_fetch P u ts c = Inl e \<Longrightarrow>
   chain_block P u ts c (Inr res, s) =
     (Inl generic_failure,
      \<lparr>requests = requests s @ chain_requests u ts c, console = console s @ [e]\<rparr>)"
  by (simp add: chain_block_unfold)

lemma chain_block_fulfil:
  "chainTokens c ts \<noteq> [] \<Longrightarrow> chain_fetch P u ts c = Inr data \<Longrightarrow>
   chain_block P u ts c (Inr res, s) =
     (Inr (res @ data),
      \<lparr>requests = requests s @ chain_requests u ts c, console = console s\<rparr>)"
  by (simp add: chain_block_unfold)

lemma foldl_chain_block_failed:
  "foldl (\<lambda>st c. chain_block P u ts c st) (Inl e, s) cs = (Inl e, s)"
  by (induction cs) simp_all

lemma foldl_chain_block_closed:
  "foldl (\<lambda>st c. chain_block P u ts c st) (Inr res, s) cs =
     (let act = filter (\<lambda>c. chainTokens c ts \<noteq> []) cs;
          reached = take_through (\<lambda>c. isl (chain_fetch P u ts c)) act
      in (if list_ex (\<lambda>c. isl (chain_fetch P u ts c)) act then Inl generic_failure
          else Inr (res @ concat (map (\<lambda>c. projr (chain_fetch P u ts c)) act)),
          \<lparr>requests = requests s @ concat (map (chain_requests u ts) reached),
           console = console s @
             map (\<lambda>c. projl (chain_fetch P u ts c))
               (filter (\<lambda>c. isl (chain_fetch P u ts c)) reached)\<rparr>))"
proof (induction cs arbitrary: res s)
  case Nil
  show ?case by simp
next
  case (Cons c cs)
  show ?case
  proof (cases "chainTokens c ts = []")
    case True
    then show ?thesis using Cons.IH [of res s] by (simp add: chain_block_skip)
  next
    case False
    show ?thesis
    proof (cases "chain_fetch P u ts c")
      case (Inl e)
      with False show ?thesis
        by (simp add: chain_block_reject foldl_chain_block_failed)
    next
      case (Inr data)
      with False show ?thesis
        using Cons.IH [of "res @ data"
            "\<lparr>requests = requests s @ chain_requests u ts c, console = console s\<rparr>"]
        by (simp add: chain_block_fulfil Let_def)
    qed
  qed
qed

lemma getTokenBalance_closed:
  "getTokenBalance P u ts =
     (let act = chains_with_tokens ts;
          reached = take_through (\<lambda>c. isl (chain_fetch P u ts c)) act
      in (if list_ex (\<lambda>c. isl (chain_fetch P u ts c)) act then Inl generic_failure
          else Inr (concat (map (\<lambda>c. projr (chain_fetch P u ts c)) act)),
          \<lparr>requests = concat (map (chain_requests u ts) reached),
           console = map (\<lambda>c. projl (chain_fetch P u ts c))
               (filter (\<lambda>c. isl (chain_fetch P u ts c)) reached)\<rparr>))"
  unfolding getTokenBalance_foldl chains_with_tokens_def
  by (simp add: foldl_chain_block_closed Let_def)

lemma getTokenBalance_result:
  "fst (getTokenBalance P u ts) =
     (if list_ex (\<lambda>c. provider_failures P u ts c \<noteq> []) (chains_with_tokens ts)
      then Inl generic_failure
      else Inr (concat (map (\<lambda>c. projr (chain_fetch P u ts c)) (chains_with_tokens ts))))"
proof -
  have "list_ex (\<lambda>c. isl (chain_fetch P u ts c)) (chains_with_tokens ts) =
        list_ex (\<lambda>c. provider_failures P u ts c \<noteq> []) (chains_with_tokens ts)"
    by (auto simp: list_ex_iff chain_fetch_isl)
  then show ?thesis
    by (simp add: getTokenBalance_closed Let_def)
qed

lemma getTokenBalance_requests:
  "requests (snd (getTokenBalance P u ts)) =
     concat (map (chain_requests u ts)
       (take_through (\<lambda>c. provider_failures P u ts c \<noteq> []) (chains_with_tokens ts)))"
proof -
  have "take_through (\<lambda>c. isl (chain_fetch P u ts c)) (chains_with_tokens ts) =
        take_through (\<lambda>c. provider_failures P u ts c \<noteq> []) (chains_with_tokens ts)"
    by (rule take_through_cong) (simp add: chain_fetch_isl)
  then show ?thesis
    by (simp add: getTokenBalance_closed Let_def)
qed

lemma getTokenBalance_console:
  assumes "list_ex (\<lambda>c. provider_failures P u ts c \<noteq> []) (chains_with_tokens ts)"
  shows "\<exists>c e. e \<in> set (provider_failures P u ts c) \<and>
                console (snd (getTokenBalance P u ts)) = [e]"
proof -
  let ?p = "\<lambda>c. isl (chain_fetch P u ts c)"
  from assms have "list_ex ?p (chains_with_tokens ts)"
    by (auto simp: list_ex_iff chain_fetch_isl)
  then obtain c where c: "c \<in> set (chains_with_tokens ts)" "?p c"
    and one: "filter ?p (take_through ?p (chains_with_tokens ts)) = [c]"
    using filter_take_through by blast
  from c(2) obtain e where e: "chain_fetch P u ts c = Inl e"
    by (cases "chain_fetch P u ts c") simp_all
  with c(1) have "e \<in> set (provider_failures P u ts c)"
    by (simp add: chain_fetch_Inl)
  moreover have "console (snd (getTokenBalance P u ts)) = [e]"
    using one e by (simp add: getTokenBalance_closed Let_def)
  ultimately show ?thesis by blast
qed

lemma getTokenBalance_success:
  assumes "fst (getTokenBalance P u ts) = Inr out"
  shows "out = concat (map (\<lambda>c. projr (chain_fetch P u ts c)) (chains_with_tokens ts))"
    and "\<And>c. chainTokens c ts \<noteq> [] \<Longrightarrow>
           chain_fetch P u ts c = Inr (projr (chain_fetch P u ts c))"
proof -
  from assms
  have none: "\<not> list_ex (\<lambda>c. provider_failures P u ts c \<noteq> []) (chains_with_tokens ts)"
    by (auto simp: getTokenBalance_result split: if_splits)
  with assms
  show "out = concat (map (\<lambda>c. projr (chain_fetch P u ts c)) (chains_with_tokens ts))"
    by (simp add: getTokenBalance_result)
  fix c
  assume c: "chainTokens c ts \<noteq> []"
  with none have "provider_failures P u ts c = []"
    by (auto simp: list_ex_iff)
  with c have "\<not> isl (chain_fetch P u ts c)"
    by (simp add: chain_fetch_isl)
  then show "chain_fetch P u ts c = Inr (projr (chain_fetch P u ts c))"
    by (cases "chain_fetch P u ts c") simp_all
qed

lemma getTokenBalance_filter_chain:
  assumes "fst (getTokenBalance P u ts) = Inr out"
  shows "filter (\<lambda>r. AccountCurrentTokenBalance.chain r = c) out =
           (if chainTokens c ts \<noteq> [] then projr (chain_fetch P u ts c) else [])"
proof -
  have "filter (\<lambda>r. AccountCurrentTokenBalance.chain r = c)
          (concat (map (\<lambda>c. projr (chain_fetch P u ts c)) (chains_with_tokens ts))) =
        (if c \<in> set (chains_with_tokens ts) then projr (chain_fetch P u ts c) else [])"
  proof (rule filter_concat_keyed)
    show "distinct (chains_with_tokens ts)" by simp
  next
    fix c' r
    assume "c' \<in> set (chains_with_tokens ts)" "r \<in> set (projr (chain_fetch P u ts c'))"
    then show "AccountCurrentTokenBalance.chain r = c'"
      using getTokenBalance_success(2) [OF assms, of c'] chain_fetch_chain by auto
  qed
  then show ?thesis
    using getTokenBalance_success(1) [OF assms] by simp
qed

lemma getTokenBalance_chain_groups:
  assumes "fst (getTokenBalance P u ts) = Inr out"
  shows "out = filter (\<lambda>r. AccountCurrentTokenBalance.chain r = Ethereum) out @
               filter (\<lambda>r. AccountCurrentTokenBalance.chain r = Arbitrum) out @
               filter (\<lambda>r. AccountCurrentTokenBalance.chain r = Optimism) out @
               filter (\<lambda>r. AccountCurrentTokenBalance.chain r = Avalanche) out"
proof -
  have "concat (map (\<lambda>c. filter (\<lambda>r. AccountCurrentTokenBalance.chain r = c) out)
          supported_chains) =
        concat (map (\<lambda>c. if chainTokens c ts \<noteq> [] then projr (chain_fetch P u ts c) else [])
          supported_chains)"
    by (simp only: getTokenBalance_filter_chain [OF assms])
  also have "\<dots> = concat (map (\<lambda>c. projr (chain_fetch P u ts c)) (chains_with_tokens ts))"
    by (simp only: concat_map_if_filter chains_with_tokens_def)
  also have "\<dots> = out"
    using getTokenBalance_success(1) [OF assms] by simp
  finally show ?thesis
    by (simp add: supported_chains_def)
qed

lemma getBalance_requests:
  "snd (getBalance P u) =
     map (\<lambda>c. NativeBalance c u)
       (take_through (\<lambda>c. isl (core_getBalance P c u)) supported_chains)"
  by (simp add: getBalance_def supported_chains_def split: sum.splits)

lemma subseq_chainTokens: "subseq (chainTokens c ts) (map address ts)"
  by (simp add: chainTokens_def subseq_map)

lemma chainTokens_absent:
  "c \<notin> TokenContractAddress.chain ` set ts \<Longrightarrow> chainTokens c ts = []"
  by (auto simp: chainTokens_def filter_empty_conv)

lemma getTokenBalance_requests_of_chain:
  "filter (\<lambda>r. request_chain r = c) (requests (snd (getTokenBalance P u ts))) =
     (if c \<in> set (take_through (\<lambda>c. provider_failures P u ts c \<noteq> []) (chains_with_tokens ts))
      then chain_requests u ts c else [])"
  unfolding getTokenBalance_requests
  by (rule filter_concat_keyed) (simp_all add: distinct_take_through chain_requests_chain)

lemma getTokenBalance_empty:
  "getTokenBalance P u [] = (Inr [], \<lparr>requests = [], console = []\<rparr>)"
  by (simp add: getTokenBalance_def chainTokens_def alchemyBlock_def avalancheBlock_def)

section \<open>References of the output against references of the input\<close>






section \<open>The claims about the token path\<close>

text \<open>
  Claim C1.  If a provider call of some chain fails -- the batched lookup of Ethereum,
  Arbitrum or Optimism, or a \<^verbatim>\<open>balanceOf\<close> / \<^verbatim>\<open>decimals\<close> request of an Avalanche contract,
  for a chain that has tokens in the input -- then \<open>getTokenBalance\<close> throws the error
  with the message \<^verbatim>\<open>Not valid contract_addresses\<close>.  The thrown value carries no record,
  so nothing fetched before the failure is returned, and the message does not contain
  the cause; the console holds exactly one entry, the cause of a failed provider call.
\<close>

theorem getTokenBalance_provider_failure:
  assumes "provider_failures P u ts c \<noteq> []"
  shows "fst (getTokenBalance P u ts) = Inl (Error ''Not valid contract_addresses'') \<and>
         (\<exists>c' e. e \<in> set (provider_failures P u ts c') \<and>
                  console (snd (getTokenBalance P u ts)) = [e])"
proof -
  from assms have "chainTokens c ts \<noteq> []"
    by (auto simp: provider_failures_def Let_def split: if_splits)
  with assms
  have ex: "list_ex (\<lambda>c. provider_failures P u ts c \<noteq> []) (chains_with_tokens ts)"
    by (auto simp: list_ex_iff)
  then have "fst (getTokenBalance P u ts) = Inl generic_failure"
    by (simp add: getTokenBalance_result)
  with getTokenBalance_console [OF ex] show ?thesis
    by (simp add: generic_failure_def)
qed

text \<open>
  The Ethereum lookup fulfils, the Arbitrum lookup rejects: the call throws the generic
  error, the Ethereum records are not returned, and the console holds the cause.
\<close>

theorem getTokenBalance_provider_failure_witness:
  "provider_failures rejecting_arbitrum ''0xUser'' example_tokens Arbitrum = [''rate limited''] \<and>
   fst (getTokenBalance rejecting_arbitrum ''0xUser'' example_tokens) =
     Inl (Error ''Not valid contract_addresses'') \<and>
   console (snd (getTokenBalance rejecting_arbitrum ''0xUser'' example_tokens)) = [''rate limited'']"
proof -
  have h: "provider_failures rejecting_arbitrum ''0xUser'' example_tokens Arbitrum =
             [''rate limited'']"
    by (simp add: provider_failures_def chainTokens_def example_tokens_def rejecting_arbitrum_def)
  then have "provider_failures rejecting_arbitrum ''0xUser'' example_tokens Arbitrum \<noteq> []"
    by simp
  from getTokenBalance_provider_failure [OF this] h show ?thesis
    by (simp add: rejecting_arbitrum_run)
qed

text \<open>
  Claim C2.  \<open>processTokenBalancesResponse\<close> keeps exactly the entries of the response
  whose raw balance is not null, in the order of the response (an entry with a null
  balance yields no record at all, not a zero record), and tags every record it
  produces with the given chain.
\<close>

theorem processTokenBalancesResponse_drops_null:
  "map tokenAddress (processTokenBalancesResponse response c) =
     map contractAddress (filter (\<lambda>b. tokenBalance b \<noteq> None) (tokenBalances response)) \<and>
   map AccountCurrentTokenBalance.chain (processTokenBalancesResponse response c) =
     replicate (length (filter (\<lambda>b. tokenBalance b \<noteq> None) (tokenBalances response))) c"
  by (simp add: processTokenBalancesResponse_def comp_def map_replicate_const)

theorem processTokenBalancesResponse_drops_null_witness:
  "map tokenAddress (processTokenBalancesResponse example_response Optimism) = [''0xC'', ''0xE''] \<and>
   map AccountCurrentTokenBalance.chain (processTokenBalancesResponse example_response Optimism) =
     [Optimism, Optimism]"
  using processTokenBalancesResponse_drops_null [of example_response Optimism]
  by (simp add: example_response_def)

lemma avalanche_failures:
  "provider_failures P u ts Avalanche \<noteq> [] \<longleftrightarrow>
     (\<exists>a \<in> set (chainTokens Avalanche ts).
        isl (contract_balanceOf P a u) \<or> isl (contract_decimals P a))"
  by (auto simp: provider_failures_def Let_def sum_causes_empty)

text \<open>The cause of a rejected batch is the one of the request that rejects first in time.\<close>

lemma racing_contracts_batch:
  "fst (getAvalancheTokenBalances racing_contracts ''0xUser'' [''0xA'', ''0xB'']) = Inl ''fast node''"
  by (simp add: run_defs example_providers_def racing_contracts_def)

text \<open>
  Claim C4, as amended.  On the Avalanche path both requests of every contract are
  issued whatever any of them answers, but the batch is all-or-nothing.  If every
  request fulfils, the batch holds one record per contract, in input order.  If some
  request of some contract rejects, the batch rejects with the cause of a rejected
  request, no record of any sibling is returned, and \<open>getTokenBalance\<close> throws the
  generic error.
\<close>

theorem avalanche_batch_all_or_nothing:
  "snd (getAvalancheTokenBalances P u as) = concat (map (\<lambda>a. [BalanceOf a u, Decimals a]) as) \<and>
   ((\<forall>a \<in> set as. \<not> isl (contract_balanceOf P a u) \<and> \<not> isl (contract_decimals P a)) \<longrightarrow>
      fst (getAvalancheTokenBalances P u as) =
        Inr (map (\<lambda>a. \<lparr>tokenAddress = a, chain = Avalanche,
               balance = JString (formatUnits (unat (projr (contract_balanceOf P a u)))
                                              (unat (projr (contract_decimals P a))))\<rparr>) as)) \<and>
   ((\<exists>a \<in> set as. isl (contract_balanceOf P a u) \<or> isl (contract_decimals P a)) \<longrightarrow>
      (\<exists>a \<in> set as.
         \<exists>e \<in> set (sum_causes (contract_balanceOf P a u) @ sum_causes (contract_decimals P a)).
           fst (getAvalancheTokenBalances P u as) = Inl e)) \<and>
   ((\<exists>a \<in> set (chainTokens Avalanche ts).
        isl (contract_balanceOf P a u) \<or> isl (contract_decimals P a)) \<longrightarrow>
      fst (getTokenBalance P u ts) = Inl (Error ''Not valid contract_addresses''))"
proof -
  have issued: "snd (getAvalancheTokenBalances P u as) =
      concat (map (\<lambda>a. [BalanceOf a u, Decimals a]) as)"
    by (simp add: getAvalancheTokenBalances_def)
  have rejects: "\<exists>a \<in> set as.
      \<exists>e \<in> set (sum_causes (contract_balanceOf P a u) @ sum_causes (contract_decimals P a)).
        fst (getAvalancheTokenBalances P u as) = Inl e"
    if "\<exists>a \<in> set as. isl (contract_balanceOf P a u) \<or> isl (contract_decimals P a)"
  proof -
    from that have "isl (fst (getAvalancheTokenBalances P u as))"
      by (simp add: getAvalancheTokenBalances_isl)
    then obtain e where e: "fst (getAvalancheTokenBalances P u as) = Inl e"
      by (cases "fst (getAvalancheTokenBalances P u as)") simp_all
    with getAvalancheTokenBalances_Inl [OF e] show ?thesis
      by blast
  qed
  have throws: "fst (getTokenBalance P u ts) = Inl (Error ''Not valid contract_addresses'')"
    if "\<exists>a \<in> set (chainTokens Avalanche ts).
          isl (contract_balanceOf P a u) \<or> isl (contract_decimals P a)"
  proof -
    from that have "provider_failures P u ts Avalanche \<noteq> []"
      by (simp add: avalanche_failures)
    moreover from that have "chainTokens Avalanche ts \<noteq> []"
      by auto
    ultimately
    have "list_ex (\<lambda>c. provider_failures P u ts c \<noteq> []) (chains_with_tokens ts)"
      by (auto simp: list_ex_iff)
    then show ?thesis
      by (simp add: getTokenBalance_result generic_failure_def)
  qed
  from issued rejects throws getAvalancheTokenBalances_fulfils [of as P u] show ?thesis
    by blast
qed

text \<open>
  With collaborators that answer every request the batch of \<^verbatim>\<open>0xB\<close> and \<^verbatim>\<open>0xF\<close> holds
  both records; once \<^verbatim>\<open>0xA\<close> reverts, the batch of \<^verbatim>\<open>0xA\<close> and \<^verbatim>\<open>0xB\<close> rejects with
  that cause and \<open>getTokenBalance\<close> throws.
\<close>

theorem avalanche_batch_all_or_nothing_witness:
  "fst (getAvalancheTokenBalances example_providers ''0xUser'' [''0xB'', ''0xF'']) =
     Inr [\<lparr>tokenAddress = ''0xB'', chain = Avalanche, balance = JString ''1.0''\<rparr>,
          \<lparr>tokenAddress = ''0xF'', chain = Avalanche, balance = JString ''1.0''\<rparr>] \<and>
   fst (getAvalancheTokenBalances reverting_contract ''0xUser'' [''0xA'', ''0xB'']) =
     Inl ''execution reverted'' \<and>
   snd (getAvalancheTokenBalances reverting_contract ''0xUser'' [''0xA'', ''0xB'']) =
     [BalanceOf ''0xA'' ''0xUser'', Decimals ''0xA'', BalanceOf ''0xB'' ''0xUser'', Decimals ''0xB''] \<and>
   fst (getTokenBalance reverting_contract ''0xUser'' avalanche_pair) =
     Inl (Error ''Not valid contract_addresses'')"
proof -
  have ok: "\<forall>a \<in> set [''0xB'', ''0xF''].
      \<not> isl (contract_balanceOf example_providers a ''0xUser'') \<and>
      \<not> isl (contract_decimals example_providers a)"
    by (simp add: example_providers_def)
  have bad: "\<exists>a \<in> set [''0xA'', ''0xB''].
      isl (contract_balanceOf reverting_contract a ''0xUser'') \<or>
      isl (contract_decimals reverting_contract a)"
    by (simp add: reverting_contract_def)
  have bad': "\<exists>a \<in> set (chainTokens Avalanche avalanche_pair).
      isl (contract_balanceOf reverting_contract a ''0xUser'') \<or>
      isl (contract_decimals reverting_contract a)"
    by (simp add: reverting_contract_def chainTokens_def avalanche_pair_def)
  have causes: "sum_causes (contract_balanceOf reverting_contract a ''0xUser'') @
      sum_causes (contract_decimals reverting_contract a) =
      (if a = ''0xA'' then [''execution reverted''] else [])" for a
    by (simp add: reverting_contract_def example_providers_def)
  have answers: "unat (projr (contract_balanceOf example_providers a ''0xUser'')) =
      1000000000000000000 \<and> unat (projr (contract_decimals example_providers a)) = 18" for a
    by (simp add: example_providers_def)
  from avalanche_batch_all_or_nothing
         [of example_providers "''0xUser''" "[''0xB'', ''0xF'']" avalanche_pair] ok
  have first: "fst (getAvalancheTokenBalances example_providers ''0xUser'' [''0xB'', ''0xF'']) =
     Inr [\<lparr>tokenAddress = ''0xB'', chain = Avalanche, balance = JString ''1.0''\<rparr>,
          \<lparr>tokenAddress = ''0xF'', chain = Avalanche, balance = JString ''1.0''\<rparr>]"
    by (simp add: answers formatUnits_one)
  from avalanche_batch_all_or_nothing
         [of reverting_contract "''0xUser''" "[''0xA'', ''0xB'']" avalanche_pair] bad bad'
  have second: "fst (getAvalancheTokenBalances reverting_contract ''0xUser'' [''0xA'', ''0xB'']) =
       Inl ''execution reverted'' \<and>
     snd (getAvalancheTokenBalances reverting_contract ''0xUser'' [''0xA'', ''0xB'']) =
       [BalanceOf ''0xA'' ''0xUser'', Decimals ''0xA'', BalanceOf ''0xB'' ''0xUser'',
        Decimals ''0xB''] \<and>
     fst (getTokenBalance reverting_contract ''0xUser'' avalanche_pair) =
       Inl (Error ''Not valid contract_addresses'')"
    by (auto simp: causes split: if_splits)
  from first second show ?thesis
    by simp
qed

text \<open>
  Claim C4, as stated.  Contract \<^verbatim>\<open>0xB\<close> gets both of its answers and its own promise
  fulfils with its record, contract \<^verbatim>\<open>0xA\<close> reverts: the batch rejects, the record of
  \<^verbatim>\<open>0xB\<close> is discarded and \<open>getTokenBalance\<close> throws.  The failure of one contract
  does abort the batch, its siblings included.
\<close>

theorem avalanche_sibling_counterexample:
  "snd (avalancheTokenBalance reverting_contract ''0xUser'' ''0xB'') =
     Inr \<lparr>tokenAddress = ''0xB'', chain = Avalanche, balance = JString ''1.0''\<rparr> \<and>
   fst (getAvalancheTokenBalances reverting_contract ''0xUser'' [''0xA'', ''0xB'']) =
     Inl ''execution reverted'' \<and>
   getTokenBalance reverting_contract ''0xUser'' avalanche_pair =
     (Inl (Error ''Not valid contract_addresses''),
      \<lparr>requests = [BalanceOf ''0xA'' ''0xUser'', Decimals ''0xA'',
                    BalanceOf ''0xB'' ''0xUser'', Decimals ''0xB''],
       console = [''execution reverted'']\<rparr>)"
  by (simp add: reverting_contract_batch reverting_contract_run)
     (simp add: avalancheTokenBalance_def reverting_contract_def example_providers_def
        formatUnits_one)

text \<open>
  Claim C6, as amended.  \<open>getBalance\<close> queries the adapters one after another in the
  order Ethereum, Arbitrum, Optimism, Avalanche: an adapter is queried only once every
  earlier query has fulfilled, so the queries stop at the first one that rejects.
  \<open>getTokenBalance\<close> does the same with the chains that have tokens in the input: a
  chain's requests are issued only once every earlier chain's fetch has succeeded.
  Only the requests of one Avalanche batch are issued together.
\<close>

theorem fetches_issued_one_after_another:
  "snd (getBalance P u) =
     map (\<lambda>c. NativeBalance c u)
       (take_through (\<lambda>c. isl (core_getBalance P c u)) [Ethereum, Arbitrum, Optimism, Avalanche]) \<and>
   requests (snd (getTokenBalance P u ts)) =
     concat (map (chain_requests u ts)
       (take_through (\<lambda>c. provider_failures P u ts c \<noteq> [])
          (filter (\<lambda>c. chainTokens c ts \<noteq> []) [Ethereum, Arbitrum, Optimism, Avalanche])))"
  using getBalance_requests [of P u] getTokenBalance_requests [of P u ts]
  by (simp add: supported_chains_def chains_with_tokens_def)

theorem fetches_issued_one_after_another_witness:
  "snd (getBalance example_providers ''0xUser'') =
     [NativeBalance Ethereum ''0xUser'', NativeBalance Arbitrum ''0xUser'',
      NativeBalance Optimism ''0xUser'', NativeBalance Avalanche ''0xUser''] \<and>
   requests (snd (getTokenBalance rejecting_arbitrum ''0xUser'' example_tokens)) =
     [TokenBalances Ethereum ''0xUser'' [''0xC'', ''0xA''],
      TokenBalances Arbitrum ''0xUser'' [''0xD'']]"
proof -
  have "take_through (\<lambda>c. isl (core_getBalance example_providers c ''0xUser''))
          [Ethereum, Arbitrum, Optimism, Avalanche] = [Ethereum, Arbitrum, Optimism, Avalanche]"
    by (simp add: example_providers_def)
  with fetches_issued_one_after_another [of example_providers "''0xUser''" example_tokens]
    fetches_issued_one_after_another [of rejecting_arbitrum "''0xUser''" example_tokens]
  show ?thesis
    by (simp add: rejecting_arbitrum_run)
qed

text \<open>
  Claim C6, as stated: the Ethereum adapter rejects.  \<open>getBalance\<close> has queried the
  Ethereum adapter only, and \<open>getTokenBalance\<close> has issued the Ethereum fetch only,
  although the input holds tokens of Arbitrum and Avalanche: the later fetches wait for
  the earlier ones.
\<close>

theorem concurrent_fetch_counterexample:
  "snd (getBalance rejecting_ethereum ''0xUser'') = [NativeBalance Ethereum ''0xUser''] \<and>
   requests (snd (getTokenBalance rejecting_ethereum ''0xUser'' example_tokens)) =
     [TokenBalances Ethereum ''0xUser'' [''0xC'', ''0xA'']] \<and>
   chainTokens Arbitrum example_tokens = [''0xD''] \<and>
   chainTokens Avalanche example_tokens = [''0xB'']"
  by (simp add: rejecting_ethereum_getBalance rejecting_ethereum_run)
     (simp add: chainTokens_def example_tokens_def)







lemma take_through_none: "\<not> list_ex p xs \<Longrightarrow> take_through p xs = xs"
  by (induction xs) simp_all

lemma chainTokens_present:
  "chainTokens c ts \<noteq> [] \<longleftrightarrow> c \<in> TokenContractAddress.chain ` set ts"
  by (auto simp: chainTokens_def filter_empty_conv)

lemma chainTokens_snoc:
  "chainTokens c (ts @ [a]) =
     chainTokens c ts @ (if TokenContractAddress.chain a = c then [address a] else [])"
  by (simp add: chainTokens_def)

lemma getTokenBalance_requests_success:
  assumes "fst (getTokenBalance P u ts) = Inr out"
  shows "requests (snd (getTokenBalance P u ts)) =
           concat (map (chain_requests u ts) (chains_with_tokens ts))"
proof -
  from assms
  have "\<not> list_ex (\<lambda>c. provider_failures P u ts c \<noteq> []) (chains_with_tokens ts)"
    by (auto simp: getTokenBalance_result split: if_splits)
  then show ?thesis
    by (simp add: getTokenBalance_requests take_through_none)
qed

text \<open>
  Claim C8.  The sub-sequence of a chain is built from the input from left to right:
  each token is appended to the sub-sequence of its own chain and of no other, so the
  input order is kept within each chain.  The requests issued for a chain are exactly
  the ones that carry its sub-sequence -- one batched lookup on Ethereum, Arbitrum and
  Optimism, \<^verbatim>\<open>balanceOf\<close> and \<^verbatim>\<open>decimals\<close> per contract on Avalanche -- if the chain has
  tokens in the input and no earlier chain's fetch has failed, and none otherwise.  A
  successful call has issued these requests for every chain present in the input, in
  the order Ethereum, Arbitrum, Optimism, Avalanche, and nothing else.  A chain absent
  from the input gets no request, and on the empty input the call returns the empty
  sequence without any request.
\<close>

theorem chain_partition_drives_calls:
  "chainTokens c [] = [] \<and>
   chainTokens c (ts @ [a]) =
     chainTokens c ts @ (if TokenContractAddress.chain a = c then [address a] else []) \<and>
   subseq (chainTokens c ts) (map address ts) \<and>
   filter (\<lambda>r. request_chain r = c) (requests (snd (getTokenBalance P u ts))) =
     (if c \<in> set (take_through (\<lambda>c. provider_failures P u ts c \<noteq> [])
                     (filter (\<lambda>c. c \<in> TokenContractAddress.chain ` set ts)
                        [Ethereum, Arbitrum, Optimism, Avalanche]))
      then if c = Avalanche
           then concat (map (\<lambda>a. [BalanceOf a u, Decimals a]) (chainTokens c ts))
           else [TokenBalances c u (chainTokens c ts)]
      else []) \<and>
   (\<forall>out. fst (getTokenBalance P u ts) = Inr out \<longrightarrow>
      requests (snd (getTokenBalance P u ts)) =
        concat (map (\<lambda>c. if c = Avalanche
                          then concat (map (\<lambda>a. [BalanceOf a u, Decimals a]) (chainTokens c ts))
                          else [TokenBalances c u (chainTokens c ts)])
                  (filter (\<lambda>c. c \<in> TokenContractAddress.chain ` set ts)
                     [Ethereum, Arbitrum, Optimism, Avalanche]))) \<and>
   (c \<notin> TokenContractAddress.chain ` set ts \<longrightarrow>
      filter (\<lambda>r. request_chain r = c) (requests (snd (getTokenBalance P u ts))) = []) \<and>
   getTokenBalance P u [] = (Inr [], \<lparr>requests = [], console = []\<rparr>)"
proof -
  have present: "chains_with_tokens ts =
      filter (\<lambda>c. c \<in> TokenContractAddress.chain ` set ts) [Ethereum, Arbitrum, Optimism, Avalanche]"
    by (simp add: chains_with_tokens_def supported_chains_def chainTokens_present)
  have reqs: "chain_requests u ts =
      (\<lambda>c. if c = Avalanche
           then concat (map (\<lambda>a. [BalanceOf a u, Decimals a]) (chainTokens c ts))
           else [TokenBalances c u (chainTokens c ts)])"
    by (simp add: chain_requests_def fun_eq_iff)
  have of_chain: "filter (\<lambda>r. request_chain r = c) (requests (snd (getTokenBalance P u ts))) =
     (if c \<in> set (take_through (\<lambda>c. provider_failures P u ts c \<noteq> [])
                     (filter (\<lambda>c. c \<in> TokenContractAddress.chain ` set ts)
                        [Ethereum, Arbitrum, Optimism, Avalanche]))
      then if c = Avalanche
           then concat (map (\<lambda>a. [BalanceOf a u, Decimals a]) (chainTokens c ts))
           else [TokenBalances c u (chainTokens c ts)]
      else [])"
    using getTokenBalance_requests_of_chain [of c P u ts]
    by (simp only: present reqs)
  have success: "requests (snd (getTokenBalance P u ts)) =
        concat (map (\<lambda>c. if c = Avalanche
                          then concat (map (\<lambda>a. [BalanceOf a u, Decimals a]) (chainTokens c ts))
                          else [TokenBalances c u (chainTokens c ts)])
                  (filter (\<lambda>c. c \<in> TokenContractAddress.chain ` set ts)
                     [Ethereum, Arbitrum, Optimism, Avalanche]))"
    if "fst (getTokenBalance P u ts) = Inr out" for out
    using getTokenBalance_requests_success [OF that]
    by (simp only: present reqs)
  have absent: "filter (\<lambda>r. request_chain r = c) (requests (snd (getTokenBalance P u ts))) = []"
    if "c \<notin> TokenContractAddress.chain ` set ts"
  proof -
    from that have "c \<notin> set (chains_with_tokens ts)"
      by (simp add: chainTokens_absent)
    then have "c \<notin> set (take_through (\<lambda>c. provider_failures P u ts c \<noteq> [])
                          (chains_with_tokens ts))"
      using set_take_through by fastforce
    then show ?thesis
      by (simp add: getTokenBalance_requests_of_chain)
  qed
  have nil: "chainTokens c [] = []"
    by (simp add: chainTokens_def)
  from nil chainTokens_snoc [of c ts a] subseq_chainTokens [of c ts] of_chain success absent
    getTokenBalance_empty [of P u]
  show ?thesis
    by blast
qed

text \<open>
  The input lists \<^verbatim>\<open>0xC\<close> before \<^verbatim>\<open>0xA\<close> on Ethereum and holds no Optimism token: the
  Ethereum lookup carries \<^verbatim>\<open>0xC\<close>, \<^verbatim>\<open>0xA\<close> in this order, and Optimism gets no request.
\<close>

theorem chain_partition_drives_calls_witness:
  "fst (getTokenBalance example_providers ''0xUser'' example_tokens) = Inr example_output \<and>
   TokenContractAddress.chain ` set example_tokens = {Ethereum, Arbitrum, Avalanche} \<and>
   requests (snd (getTokenBalance example_providers ''0xUser'' example_tokens)) =
     [TokenBalances Ethereum ''0xUser'' [''0xC'', ''0xA''],
      TokenBalances Arbitrum ''0xUser'' [''0xD''],
      BalanceOf ''0xB'' ''0xUser'', Decimals ''0xB''] \<and>
   filter (\<lambda>r. request_chain r = Optimism)
     (requests (snd (getTokenBalance example_providers ''0xUser'' example_tokens))) = []"
proof -
  have run: "fst (getTokenBalance example_providers ''0xUser'' example_tokens) = Inr example_output"
    by (simp add: example_run)
  have present: "TokenContractAddress.chain ` set example_tokens = {Ethereum, Arbitrum, Avalanche}"
    by (auto simp: example_tokens_def)
  have subs: "chainTokens Ethereum example_tokens = [''0xC'', ''0xA'']"
    "chainTokens Arbitrum example_tokens = [''0xD'']"
    "chainTokens Avalanche example_tokens = [''0xB'']"
    by (simp_all add: chainTokens_def example_tokens_def)
  from chain_partition_drives_calls
         [of Optimism example_tokens _ example_providers "''0xUser''"] run
  have "requests (snd (getTokenBalance example_providers ''0xUser'' example_tokens)) =
        concat (map (\<lambda>c. if c = Avalanche
                          then concat (map (\<lambda>a. [BalanceOf a ''0xUser'', Decimals a])
                                 (chainTokens c example_tokens))
                          else [TokenBalances c ''0xUser'' (chainTokens c example_tokens)])
                  (filter (\<lambda>c. c \<in> TokenContractAddress.chain ` set example_tokens)
                     [Ethereum, Arbitrum, Optimism, Avalanche]))"
    and "Optimism \<notin> TokenContractAddress.chain ` set example_tokens \<longrightarrow>
      filter (\<lambda>r. request_chain r = Optimism)
        (requests (snd (getTokenBalance example_providers ''0xUser'' example_tokens))) = []"
    by blast+
  with run present show ?thesis
    by (simp add: subs)
qed

text \<open>
  Claim C10.  The records of a successful \<open>getTokenBalance\<close> are grouped by chain in the
  order Ethereum, Arbitrum, Optimism, Avalanche, whatever the order of the input: the
  output is its Ethereum records, followed by its Arbitrum records, its Optimism records
  and its Avalanche records.
\<close>

theorem getTokenBalance_grouped_by_chain:
  assumes "fst (getTokenBalance P u ts) = Inr out"
  shows "out = concat (map (\<lambda>c. filter (\<lambda>r. AccountCurrentTokenBalance.chain r = c) out)
                  [Ethereum, Arbitrum, Optimism, Avalanche])"
  using getTokenBalance_chain_groups [OF assms] by simp

text \<open>The input starts with an Avalanche token; the Avalanche record comes last.\<close>

theorem getTokenBalance_grouped_by_chain_witness:
  "fst (getTokenBalance example_providers ''0xUser'' example_tokens) = Inr example_output \<and>
   map AccountCurrentTokenBalance.chain example_output = [Ethereum, Arbitrum, Avalanche] \<and>
   example_output =
     concat (map (\<lambda>c. filter (\<lambda>r. AccountCurrentTokenBalance.chain r = c) example_output)
       [Ethereum, Arbitrum, Optimism, Avalanche])"
proof -
  have run: "fst (getTokenBalance example_providers ''0xUser'' example_tokens) = Inr example_output"
    by (simp add: example_run)
  have tags: "map AccountCurrentTokenBalance.chain example_output = [Ethereum, Arbitrum, Avalanche]"
    by (simp add: example_output_def)
  from getTokenBalance_grouped_by_chain [OF run] run tags show ?thesis
    by simp
qed

section \<open>The claims about conversion and formatting\<close>

text \<open>
  Claim C3, as amended.  Whenever \<open>getBalance\<close> returns, its record holds the four
  entries \<open>eth\<close>, \<open>arb\<close>, \<open>op\<close> and \<open>avax\<close>, each made from the balance its own adapter
  reported.  An entry is a decimal string with exactly five fractional digits if and
  only if its balance is below \<open>999999999999999934464 * 10^18\<close> smallest units, a zero
  balance included: from that balance on the converted amount is a binary64 value of
  \<open>10^21\<close> or more, or infinite, which \<^verbatim>\<open>toFixed\<close> does not print in that form.
\<close>

theorem getBalance_five_fraction_digits:
  assumes "fst (getBalance P u) = Inr r"
  shows "\<exists>be ba bo bv.
           core_getBalance P Ethereum u = Inr be \<and> core_getBalance P Arbitrum u = Inr ba \<and>
           core_getBalance P Optimism u = Inr bo \<and> core_getBalance P Avalanche u = Inr bv \<and>
           r = \<lparr>eth = formatNative be, arb = formatNative ba,
                op = formatNative bo, avax = formatNative bv\<rparr> \<and>
           (five_fraction_digits (eth r) \<longleftrightarrow> be < native_bound) \<and>
           (five_fraction_digits (arb r) \<longleftrightarrow> ba < native_bound) \<and>
           (five_fraction_digits (op r) \<longleftrightarrow> bo < native_bound) \<and>
           (five_fraction_digits (avax r) \<longleftrightarrow> bv < native_bound)"
proof -
  from assms obtain be ba bo bv where
    calls: "core_getBalance P Ethereum u = Inr be" "core_getBalance P Arbitrum u = Inr ba"
      "core_getBalance P Optimism u = Inr bo" "core_getBalance P Avalanche u = Inr bv"
    and r: "r = \<lparr>eth = formatNative be, arb = formatNative ba,
                 op = formatNative bo, avax = formatNative bv\<rparr>"
    by (auto simp: getBalance_def split: sum.splits)
  from calls show ?thesis
    by (simp add: r formatNative_five_iff)
qed

text \<open>
  Balances of one unit, zero, 1.234567890123456789 units and two and a half units
  give \<^verbatim>\<open>1.00000\<close>, \<^verbatim>\<open>0.00000\<close>, \<^verbatim>\<open>1.23457\<close> and \<^verbatim>\<open>2.50000\<close>; with \<open>10^39\<close> smallest
  units on Ethereum and zero elsewhere, only the entry \<open>eth\<close> loses the form.
\<close>

theorem getBalance_five_fraction_digits_witness:
  "fst (getBalance example_providers ''0xUser'') =
     Inr \<lparr>eth = ''1.00000'', arb = ''0.00000'', op = ''1.23457'', avax = ''2.50000''\<rparr> \<and>
   five_fraction_digits ''1.00000'' \<and> five_fraction_digits ''0.00000'' \<and>
   five_fraction_digits ''1.23457'' \<and> five_fraction_digits ''2.50000'' \<and>
   fst (getBalance huge_balance ''0xUser'') =
     Inr \<lparr>eth = ''1e+21'', arb = ''0.00000'', op = ''0.00000'', avax = ''0.00000''\<rparr> \<and>
   \<not> five_fraction_digits ''1e+21''"
proof -
  have small: "core_getBalance example_providers c ''0xUser'' = Inr b \<Longrightarrow> b < native_bound"
    for c b
    by (cases c) (auto simp: example_providers_def native_bound_def)
  have huge: "core_getBalance huge_balance c ''0xUser'' =
      Inr (if c = Ethereum then 10 ^ 39 else 0)" for c
    by (simp add: huge_balance_def)
  have bound: "\<not> (10 ^ 39 < native_bound)" "0 < native_bound"
    by (simp_all add: native_bound_def)
  from getBalance_five_fraction_digits [OF example_getBalance] small
  have first: "five_fraction_digits ''1.00000'' \<and> five_fraction_digits ''0.00000'' \<and>
      five_fraction_digits ''1.23457'' \<and> five_fraction_digits ''2.50000''"
    by auto
  from getBalance_five_fraction_digits [OF huge_getBalance] bound
  have second: "\<not> five_fraction_digits ''1e+21''"
    by (auto simp: huge)
  from first second show ?thesis
    by (simp add: example_getBalance huge_getBalance)
qed

text \<open>
  Claim C3, as stated: the Ethereum adapter reports \<open>10^39\<close> smallest units (a value a
  256-bit balance can hold).  The amount parses to the binary64 value \<open>10^21\<close>, which
  \<^verbatim>\<open>toFixed\<close> prints in exponent notation: the entry \<open>eth\<close> is \<^verbatim>\<open>1e+21\<close>, without any
  fractional digit.
\<close>

theorem getBalance_exponent_counterexample:
  "fst (getBalance huge_balance ''0xUser'') =
     Inr \<lparr>eth = ''1e+21'', arb = ''0.00000'', op = ''0.00000'', avax = ''0.00000''\<rparr> \<and>
   \<not> five_fraction_digits ''1e+21''"
  by (simp add: huge_getBalance not_five_1e21)

text \<open>
  Claim C5.  On the Avalanche path the \<open>balance\<close> of a returned record is the string
  that \<^verbatim>\<open>formatUnits\<close> produced, not a number: for one whole token with 18 decimals it
  is the string \<^verbatim>\<open>1.0\<close>.
\<close>

theorem avalanche_balance_is_string:
  "fst (getTokenBalance example_providers ''0xUser'' avalanche_only) =
     Inr [\<lparr>tokenAddress = ''0xB'', chain = Avalanche, balance = JString ''1.0''\<rparr>]"
  by (simp add: run_defs example_providers_def formatUnits_one)

text \<open>
  Claim C9.  A balance of \<open>1000000000000000000\<close> smallest units is formatted with 18
  digits of precision as \<^verbatim>\<open>1.0\<close>; \<open>processTokenBalancesResponse\<close> turns it into the
  number 1 exactly, and the native path into the string \<^verbatim>\<open>1.00000\<close>.
\<close>

theorem one_ether_conversion:
  "formatEther 1000000000000000000 = ''1.0'' \<and>
   processTokenBalancesResponse
     \<lparr>tokenBalances = [\<lparr>contractAddress = a, tokenBalance = Some 1000000000000000000\<rparr>]\<rparr> c =
     [\<lparr>tokenAddress = a, chain = c, balance = JNumber (Finite 1)\<rparr>] \<and>
   formatNative 1000000000000000000 = ''1.00000''"
  by (simp add: formatEther_one formatNative_one processTokenBalancesResponse_def
        parseFloat_formatEther round_one)

text \<open>The same conversion inside a whole call of \<open>getBalance\<close> and \<open>getTokenBalance\<close>.\<close>

theorem one_ether_conversion_witness:
  "eth (projr (fst (getBalance example_providers ''0xUser''))) = ''1.00000'' \<and>
   processTokenBalancesResponse
     \<lparr>tokenBalances = [\<lparr>contractAddress = ''0xC'', tokenBalance = Some 1000000000000000000\<rparr>]\<rparr>
     Ethereum =
     [\<lparr>tokenAddress = ''0xC'', chain = Ethereum, balance = JNumber (Finite 1)\<rparr>]"
  using one_ether_conversion [of "''0xC''" Ethereum]
  by (simp add: example_getBalance)

end
